theory Spec2Isabelle
  imports Main "HOL-Library.Word"
begin

section \<open>Data model of the subscription publish engine\<close>

text \<open>
  The embedding follows \<^verbatim>\<open>src/server/ua_subscription.c\<close>. The struct declarations live in
  headers that are not part of the sources at hand; the records below carry the fields the
  functions of that file read and write, with the widths the specification gives them
  (32-bit unsigned counters and identifiers). Fields that no function of the file reads or
  writes (publishing interval, priority, callback handle, the acknowledgement results of a
  response) are left out. Intrusive lists (\<^verbatim>\<open>LIST\<close>, \<^verbatim>\<open>TAILQ\<close>, \<^verbatim>\<open>SIMPLEQ\<close>) are HOL
  lists in head-to-tail order.
\<close>

type_synonym UA_UInt32 = "32 word"
type_synonym UA_DateTime = "64 word"
type_synonym UA_DataValue = string
type_synonym UA_SecureChannel = nat

datatype UA_StatusCode =
    UA_STATUSCODE_GOOD
  | UA_STATUSCODE_BADOUTOFMEMORY
  | UA_STATUSCODE_BADSEQUENCENUMBERUNKNOWN
  | UA_STATUSCODE_BADNOSUBSCRIPTION

datatype UA_SubscriptionState =
    UA_SUBSCRIPTIONSTATE_NORMAL
  | UA_SUBSCRIPTIONSTATE_LATE
  | UA_SUBSCRIPTIONSTATE_KEEPALIVE

record MonitoredItem_queuedValue =
  qv_clientHandle :: UA_UInt32
  qv_value :: UA_DataValue

record UA_MonitoredItem =
  itemId :: UA_UInt32
  queue :: "MonitoredItem_queuedValue list"
  currentQueueSize :: UA_UInt32

record UA_MonitoredItemNotification =
  clientHandle :: UA_UInt32
  dataValue :: UA_DataValue

text \<open>
  An extension object is either freshly allocated without a body, or decoded and pointing to
  a \<^verbatim>\<open>UA_DataChangeNotification\<close>, whose only field used here is the array
  \<^verbatim>\<open>monitoredItems\<close> (the empty list is the null array).
\<close>

datatype UA_ExtensionObject =
    UA_EXTENSIONOBJECT_ENCODED_NOBODY
  | UA_EXTENSIONOBJECT_DECODED "UA_MonitoredItemNotification list"

record UA_NotificationMessage =
  msg_sequenceNumber :: UA_UInt32
  publishTime :: UA_DateTime
  notificationData :: "UA_ExtensionObject list"

text \<open>A retransmission entry is its list link and the message; the model keeps the message.\<close>

type_synonym UA_NotificationMessageEntry = UA_NotificationMessage

record UA_PublishResponse =
  timestamp :: UA_DateTime
  serviceResult :: UA_StatusCode
  subscriptionId :: UA_UInt32
  availableSequenceNumbers :: "UA_UInt32 list"
  moreNotifications :: bool
  notificationMessage :: UA_NotificationMessage

record UA_PublishResponseEntry =
  requestId :: UA_UInt32
  response :: UA_PublishResponse

text \<open>
  The session as the engine sees it: its secure channel (\<open>None\<close> is the null pointer), the
  queue of banked publish requests, and the list of its subscriptions, kept as their
  identifiers.
\<close>

record UA_Session =
  channel :: "UA_SecureChannel option"
  responseQueue :: "UA_PublishResponseEntry list"
  serverSubscriptions :: "UA_UInt32 list"

record UA_Subscription =
  lifeTimeCount :: UA_UInt32
  maxKeepAliveCount :: UA_UInt32
  subscriptionID :: UA_UInt32
  notificationsPerPublish :: UA_UInt32
  publishingEnabled :: bool
  state :: UA_SubscriptionState
  sequenceNumber :: UA_UInt32
  currentKeepAliveCount :: UA_UInt32
  currentLifetimeCount :: UA_UInt32
  monitoredItems :: "UA_MonitoredItem list"
  retransmissionQueue :: "UA_NotificationMessageEntry list"
  retransmissionQueueSize :: UA_UInt32

record UA_Server =
  maxRetransmissionQueueSize :: UA_UInt32

text \<open>One call of \<^verbatim>\<open>UA_SecureChannel_sendSymmetricMessage\<close>, as the channel receives it.\<close>

record SentMessage =
  sm_channel :: "UA_SecureChannel option"
  sm_requestId :: UA_UInt32
  sm_response :: UA_PublishResponse

text \<open>
  What the engine reaches outside the session: the messages handed to the secure channel so
  far, the clock, and the allocator. \<open>allocOutcomes\<close> scripts the results of the coming
  allocation requests (\<open>False\<close> is a null result; an exhausted script succeeds), and
  \<open>allocated\<close> counts the blocks obtained in this file for notification messages and
  retransmission entries that have not been released yet. Blocks that other parts of the
  server allocate and this file releases (queue cells of monitored items, envelopes) are not
  counted.
\<close>

record Env =
  sent :: "SentMessage list"
  now :: UA_DateTime
  allocOutcomes :: "bool list"
  allocated :: int

section \<open>Allocator\<close>

text \<open>
  Modelled from the spec: the allocator behind \<^verbatim>\<open>UA_malloc\<close>, \<^verbatim>\<open>UA_free\<close> and the
  \<^verbatim>\<open>UA_..._new\<close> constructors is outside this file. The specification has every
  allocation either succeed or fail with a null result, and has destroyed objects release
  what they hold. A request takes the next outcome of the script; a successful one adds a
  block, a release removes one.
\<close>

definition UA_malloc :: "Env \<Rightarrow> bool \<times> Env" where
  "UA_malloc env =
     (case allocOutcomes env of
        [] \<Rightarrow> (True, env\<lparr>allocated := allocated env + 1\<rparr>)
      | ok # rest \<Rightarrow>
          (ok, env\<lparr>allocOutcomes := rest,
                   allocated := allocated env + (if ok then 1 else 0)\<rparr>))"

definition UA_free :: "Env \<Rightarrow> Env" where
  "UA_free env = env\<lparr>allocated := allocated env - 1\<rparr>"

text \<open>
  Modelled from the spec: \<^verbatim>\<open>UA_NotificationMessage_deleteMembers\<close> is outside this file. It
  destroys what the message holds and leaves the message initialised. The blocks a message
  holds are, per extension object, the object itself and, when decoded, the data-change
  notification and its non-null array.
\<close>

fun blocksExtensionObject :: "UA_ExtensionObject \<Rightarrow> int" where
  "blocksExtensionObject UA_EXTENSIONOBJECT_ENCODED_NOBODY = 1"
| "blocksExtensionObject (UA_EXTENSIONOBJECT_DECODED arr) = (if arr = [] then 2 else 3)"

definition blocksMessage :: "UA_NotificationMessage \<Rightarrow> int" where
  "blocksMessage m = sum_list (map blocksExtensionObject (notificationData m))"

text \<open>Blocks released when retransmission entries are destroyed: each entry and what its
  message holds.\<close>

definition blocksEntries :: "UA_NotificationMessage list \<Rightarrow> int" where
  "blocksEntries entries = sum_list (map (\<lambda>entry. 1 + blocksMessage entry) entries)"

definition UA_NotificationMessage_init :: UA_NotificationMessage where
  "UA_NotificationMessage_init =
     \<lparr>msg_sequenceNumber = 0, publishTime = 0, notificationData = []\<rparr>"

definition UA_NotificationMessage_deleteMembers ::
  "UA_NotificationMessage \<Rightarrow> Env \<Rightarrow> UA_NotificationMessage \<times> Env" where
  "UA_NotificationMessage_deleteMembers m env =
     (UA_NotificationMessage_init, env\<lparr>allocated := allocated env - blocksMessage m\<rparr>)"

section \<open>Retransmission queue\<close>

text \<open>
  \<^verbatim>\<open>UA_Subscription_addRetransmissionMessage\<close>. When the bound is reached the tail entry is
  unlinked and destroyed before the new entry is linked at the head. \<^verbatim>\<open>TAILQ_LAST\<close> of an
  empty queue is the null pointer, which the code dereferences: that is the result \<open>None\<close>.
\<close>

definition UA_Subscription_addRetransmissionMessage ::
  "UA_Server \<Rightarrow> UA_Subscription \<Rightarrow> UA_NotificationMessageEntry \<Rightarrow> Env
     \<Rightarrow> (UA_Subscription \<times> Env) option" where
  "UA_Subscription_addRetransmissionMessage server sub entry env =
     (if maxRetransmissionQueueSize server > 0 \<and>
         retransmissionQueueSize sub \<ge> maxRetransmissionQueueSize server
      then
        (if retransmissionQueue sub = [] then None
         else
           let lastentry = last (retransmissionQueue sub);
               sub1 = sub\<lparr>retransmissionQueue := butlast (retransmissionQueue sub),
                          retransmissionQueueSize := retransmissionQueueSize sub - 1\<rparr>;
               env1 = UA_free (snd (UA_NotificationMessage_deleteMembers lastentry env))
           in Some (sub1\<lparr>retransmissionQueue := entry # retransmissionQueue sub1,
                         retransmissionQueueSize := retransmissionQueueSize sub1 + 1\<rparr>, env1))
      else
        Some (sub\<lparr>retransmissionQueue := entry # retransmissionQueue sub,
                  retransmissionQueueSize := retransmissionQueueSize sub + 1\<rparr>, env))"

text \<open>The scan of \<^verbatim>\<open>UA_Subscription_removeRetransmissionMessage\<close>: the first entry, from the
  head, whose message carries the sequence number.\<close>

fun findRetransmissionMessage ::
  "UA_UInt32 \<Rightarrow> UA_NotificationMessageEntry list \<Rightarrow> UA_NotificationMessageEntry option" where
  "findRetransmissionMessage n [] = None"
| "findRetransmissionMessage n (entry # rest) =
     (if msg_sequenceNumber entry = n then Some entry else findRetransmissionMessage n rest)"

text \<open>\<^verbatim>\<open>TAILQ_REMOVE\<close> of the entry that scan stopped at.\<close>

fun unlinkRetransmissionMessage ::
  "UA_UInt32 \<Rightarrow> UA_NotificationMessageEntry list \<Rightarrow> UA_NotificationMessageEntry list" where
  "unlinkRetransmissionMessage n [] = []"
| "unlinkRetransmissionMessage n (entry # rest) =
     (if msg_sequenceNumber entry = n then rest
      else entry # unlinkRetransmissionMessage n rest)"

definition UA_Subscription_removeRetransmissionMessage ::
  "UA_Subscription \<Rightarrow> UA_UInt32 \<Rightarrow> Env \<Rightarrow> UA_StatusCode \<times> UA_Subscription \<times> Env" where
  "UA_Subscription_removeRetransmissionMessage sub n env =
     (case findRetransmissionMessage n (retransmissionQueue sub) of
        None \<Rightarrow> (UA_STATUSCODE_BADSEQUENCENUMBERUNKNOWN, sub, env)
      | Some entry \<Rightarrow>
          (UA_STATUSCODE_GOOD,
           sub\<lparr>retransmissionQueue := unlinkRetransmissionMessage n (retransmissionQueue sub),
               retransmissionQueueSize := retransmissionQueueSize sub - 1\<rparr>,
           UA_free (snd (UA_NotificationMessage_deleteMembers entry env))))"

section \<open>Counting and moving queued notifications\<close>

text \<open>
  \<^verbatim>\<open>countQueuedNotifications\<close>. The inner loop walks the queued values of one monitored
  item; at the cap it raises the flag and breaks out of that item only, so the outer loop
  goes on to the next item. The count is a \<^verbatim>\<open>size_t\<close> that is only incremented below the
  32-bit cap, so it is a natural number here.
\<close>

fun countQueue ::
  "nat \<Rightarrow> MonitoredItem_queuedValue list \<Rightarrow> nat \<times> bool \<Rightarrow> nat \<times> bool" where
  "countQueue cap [] (notifications, moreFlag) = (notifications, moreFlag)"
| "countQueue cap (qv # rest) (notifications, moreFlag) =
     (if notifications \<ge> cap then (notifications, True)
      else countQueue cap rest (notifications + 1, moreFlag))"

fun countItems :: "nat \<Rightarrow> UA_MonitoredItem list \<Rightarrow> nat \<times> bool \<Rightarrow> nat \<times> bool" where
  "countItems cap [] acc = acc"
| "countItems cap (mon # rest) acc = countItems cap rest (countQueue cap (queue mon) acc)"

definition countQueuedNotifications :: "UA_Subscription \<Rightarrow> bool \<Rightarrow> nat \<times> bool" where
  "countQueuedNotifications sub moreFlag =
     (if \<not> publishingEnabled sub then (0, moreFlag)
      else countItems (unat (notificationsPerPublish sub)) (monitoredItems sub)
             (0, moreFlag))"

text \<open>
  The moving loops of \<^verbatim>\<open>prepareNotificationMessage\<close>. \<open>moveQueue\<close> is the inner loop over one
  item's queue: it yields the values left in the queue, the item's size counter, the array,
  the index \<open>l\<close>, and whether the function returned from inside the loop.
\<close>

fun moveQueue ::
  "nat \<Rightarrow> MonitoredItem_queuedValue list \<Rightarrow> UA_UInt32 \<Rightarrow> UA_MonitoredItemNotification list
     \<Rightarrow> nat
     \<Rightarrow> MonitoredItem_queuedValue list \<times> UA_UInt32 \<times> UA_MonitoredItemNotification list
         \<times> nat \<times> bool" where
  "moveQueue notifications [] qsize arr l = ([], qsize, arr, l, False)"
| "moveQueue notifications (qv # rest) qsize arr l =
     (if l \<ge> notifications then (qv # rest, qsize, arr, l, True)
      else moveQueue notifications rest (qsize - 1)
             (arr[l := \<lparr>clientHandle = qv_clientHandle qv, dataValue = qv_value qv\<rparr>])
             (l + 1))"

fun moveItems ::
  "nat \<Rightarrow> UA_MonitoredItem list \<Rightarrow> UA_MonitoredItemNotification list \<Rightarrow> nat
     \<Rightarrow> UA_MonitoredItem list \<times> UA_MonitoredItemNotification list" where
  "moveItems notifications [] arr l = ([], arr)"
| "moveItems notifications (mon # rest) arr l =
     (case moveQueue notifications (queue mon) (currentQueueSize mon) arr l of
        (q, qsize, arr1, l1, returned) \<Rightarrow>
          if returned then (mon\<lparr>queue := q, currentQueueSize := qsize\<rparr> # rest, arr1)
          else (case moveItems notifications rest arr1 l1 of
                  (rest1, arr2) \<Rightarrow> (mon\<lparr>queue := q, currentQueueSize := qsize\<rparr> # rest1, arr2)))"

text \<open>Modelled from the spec: \<^verbatim>\<open>UA_Array_new\<close> is outside this file. It yields a zeroed
  array of the given size, or null when the allocation fails; an array of size 0 takes no
  block.\<close>

definition UA_Array_new :: "nat \<Rightarrow> Env \<Rightarrow> UA_MonitoredItemNotification list option \<times> Env" where
  "UA_Array_new n env =
     (if n = 0 then (Some [], env)
      else case UA_malloc env of
             (ok, env1) \<Rightarrow>
               (if ok then Some (replicate n \<lparr>clientHandle = 0, dataValue = []\<rparr>) else None,
                env1))"

definition prepareNotificationMessage ::
  "UA_Subscription \<Rightarrow> UA_NotificationMessage \<Rightarrow> nat \<Rightarrow> Env
     \<Rightarrow> UA_StatusCode \<times> UA_Subscription \<times> UA_NotificationMessage \<times> Env" where
  "prepareNotificationMessage sub message notifications env =
     (case UA_malloc env of
        (False, env1) \<Rightarrow>
          (UA_STATUSCODE_BADOUTOFMEMORY, sub, message\<lparr>notificationData := []\<rparr>, env1)
      | (True, env1) \<Rightarrow>
          (case UA_malloc env1 of
             (False, env2) \<Rightarrow>
               (case UA_NotificationMessage_deleteMembers
                       (message\<lparr>notificationData := [UA_EXTENSIONOBJECT_ENCODED_NOBODY]\<rparr>) env2 of
                  (message1, env3) \<Rightarrow> (UA_STATUSCODE_BADOUTOFMEMORY, sub, message1, env3))
           | (True, env2) \<Rightarrow>
               (case UA_Array_new notifications env2 of
                  (None, env3) \<Rightarrow>
                    (case UA_NotificationMessage_deleteMembers
                            (message\<lparr>notificationData := [UA_EXTENSIONOBJECT_DECODED []]\<rparr>)
                            env3 of
                       (message1, env4) \<Rightarrow> (UA_STATUSCODE_BADOUTOFMEMORY, sub, message1, env4))
                | (Some arr, env3) \<Rightarrow>
                    (case moveItems notifications (monitoredItems sub) arr 0 of
                       (mons, arr1) \<Rightarrow>
                         (UA_STATUSCODE_GOOD, sub\<lparr>monitoredItems := mons\<rparr>,
                          message\<lparr>notificationData := [UA_EXTENSIONOBJECT_DECODED arr1]\<rparr>,
                          env3)))))"

section \<open>The publish callback\<close>

text \<open>
  Modelled from the spec: \<^verbatim>\<open>UA_Session_deleteSubscription\<close> is defined outside this file. The
  specification's session interface removes the subscription from the session and tears it
  down, which destroys the retransmission queue; the subscription itself no longer exists
  afterwards, so only the session and the environment are returned.
\<close>

definition UA_Session_deleteSubscription ::
  "UA_Session \<Rightarrow> UA_Subscription \<Rightarrow> Env \<Rightarrow> UA_Session \<times> Env" where
  "UA_Session_deleteSubscription se sub env =
     (se\<lparr>serverSubscriptions := removeAll (subscriptionID sub) (serverSubscriptions se)\<rparr>,
      env\<lparr>allocated := allocated env - blocksEntries (retransmissionQueue sub)\<rparr>)"

text \<open>
  Lines 265 to 320 of \<^verbatim>\<open>UA_Subscription_publishCallback\<close>, past the point of no return: the
  envelope \<open>pre\<close> is taken off the response queue (whose remainder is \<open>rest\<close>), stamped, given
  its sequence number, retained for retransmission when it bears data, sent, and the
  subscription is reset. The array of available sequence numbers is allocated only when
  \<open>retransmissionQueueSize\<close> is positive and has that many cells, filled from the head of
  the queue: the response carries the numbers of the first \<open>retransmissionQueueSize\<close>
  entries (cells beyond the last entry would be uninitialised and are not represented). The
  last component of the result is \<open>moreNotifications\<close>. Sending is recorded as the call of
  \<^verbatim>\<open>UA_SecureChannel_sendSymmetricMessage\<close> with the session's channel, the request
  identifier and the response as it stands at that moment; \<^verbatim>\<open>UA_DateTime_now\<close> reads the
  environment's clock.
\<close>

definition commitPublishResponse ::
  "UA_Server \<Rightarrow> UA_Subscription \<Rightarrow> UA_Session \<Rightarrow> Env \<Rightarrow> UA_PublishResponseEntry
     \<Rightarrow> UA_PublishResponseEntry list \<Rightarrow> UA_NotificationMessage \<Rightarrow> nat \<Rightarrow> bool
     \<Rightarrow> (UA_Subscription option \<times> UA_Session \<times> Env \<times> bool) option" where
  "commitPublishResponse server sub se env pre rest message notifications moreFlag =
     (let response1 = (response pre)\<lparr>timestamp := now env,
                                      subscriptionId := subscriptionID sub,
                                      moreNotifications := moreFlag\<rparr>;
          message1 = message\<lparr>publishTime := now env\<rparr>;
          numbered =
            (if notifications = 0
             then Some (sub, message1\<lparr>msg_sequenceNumber := sequenceNumber sub + 1\<rparr>, env)
             else
               let sub1 = sub\<lparr>sequenceNumber := sequenceNumber sub + 1\<rparr>;
                   message2 = message1\<lparr>msg_sequenceNumber := sequenceNumber sub1\<rparr>
               in case UA_Subscription_addRetransmissionMessage server sub1 message2 env of
                    None \<Rightarrow> None
                  | Some (sub2, env1) \<Rightarrow> Some (sub2, message2, env1))
      in case numbered of
           None \<Rightarrow> None
         | Some (sub3, message3, env2) \<Rightarrow>
             let response2 = response1\<lparr>notificationMessage := message3\<rparr>;
                 response3 =
                   (if retransmissionQueueSize sub3 > 0
                    then response2\<lparr>availableSequenceNumbers :=
                                      take (unat (retransmissionQueueSize sub3))
                                        (map msg_sequenceNumber (retransmissionQueue sub3))\<rparr>
                    else response2);
                 env3 = env2\<lparr>sent := sent env2 @
                                 [\<lparr>sm_channel = channel se, sm_requestId = requestId pre,
                                   sm_response = response3\<rparr>]\<rparr>
             in Some (Some (sub3\<lparr>state := UA_SUBSCRIPTIONSTATE_NORMAL,
                                  currentKeepAliveCount := 0,
                                  currentLifetimeCount := 0\<rparr>),
                      se\<lparr>responseQueue := rest\<rparr>, env3, moreFlag))"

text \<open>
  Lines 196 to 320: one pass through the body of \<^verbatim>\<open>UA_Subscription_publishCallback\<close>. The
  result is \<open>None\<close> when the pass dereferences a null pointer; otherwise it holds the
  subscription (\<open>None\<close> once it has been deleted), the session, the environment, and whether
  the pass reached line 323 with \<open>moreNotifications\<close> set. Every early \<^verbatim>\<open>return\<close> yields
  \<open>False\<close> there.
\<close>

definition publishCallbackPass ::
  "UA_Server \<Rightarrow> UA_Subscription \<Rightarrow> UA_Session \<Rightarrow> Env
     \<Rightarrow> (UA_Subscription option \<times> UA_Session \<times> Env \<times> bool) option" where
  "publishCallbackPass server sub se env =
     (case countQueuedNotifications sub False of
        (notifications, moreFlag) \<Rightarrow>
          let sub1 = (if notifications = 0
                      then sub\<lparr>currentKeepAliveCount := currentKeepAliveCount sub + 1\<rparr>
                      else sub)
          in
          if notifications = 0 \<and> currentKeepAliveCount sub1 < maxKeepAliveCount sub1
          then Some (Some sub1, se, env, False)
          else if channel se = None then Some (Some sub1, se, env, False)
          else
            (case responseQueue se of
               [] \<Rightarrow>
                 if state sub1 \<noteq> UA_SUBSCRIPTIONSTATE_LATE
                 then Some (Some (sub1\<lparr>state := UA_SUBSCRIPTIONSTATE_LATE\<rparr>), se, env, False)
                 else
                   let sub2 = sub1\<lparr>currentLifetimeCount := currentLifetimeCount sub1 + 1\<rparr>
                   in if currentLifetimeCount sub2 > lifeTimeCount sub2
                      then (case UA_Session_deleteSubscription se sub2 env of
                              (se1, env1) \<Rightarrow> Some (None, se1, env1, False))
                      else Some (Some sub2, se, env, False)
             | pre # rest \<Rightarrow>
                 if notifications > 0
                 then
                   (case UA_malloc env of
                      (False, env1) \<Rightarrow> Some (Some sub1, se, env1, False)
                    | (True, env1) \<Rightarrow>
                        (case prepareNotificationMessage sub1
                                (notificationMessage (response pre)) notifications env1 of
                           (retval, sub2, message, env2) \<Rightarrow>
                             if retval \<noteq> UA_STATUSCODE_GOOD
                             then Some (Some sub2,
                                        se\<lparr>responseQueue :=
                                             pre\<lparr>response := (response pre)
                                                    \<lparr>notificationMessage := message\<rparr>\<rparr> # rest\<rparr>,
                                        UA_free env2, False)
                             else commitPublishResponse server sub2 se env2 pre rest message
                                    notifications moreFlag))
                 else commitPublishResponse server sub1 se env pre rest
                        (notificationMessage (response pre)) notifications moreFlag))"

text \<open>
  \<^verbatim>\<open>UA_Subscription_publishCallback\<close>: the pass, repeated through the recursive call of line
  324 while \<open>moreNotifications\<close> is set. Each repetition has taken an envelope off the
  response queue, which is what makes the recursion end.
\<close>

function UA_Subscription_publishCallback ::
  "UA_Server \<Rightarrow> UA_Subscription \<Rightarrow> UA_Session \<Rightarrow> Env
     \<Rightarrow> (UA_Subscription option \<times> UA_Session \<times> Env) option" where
  "UA_Subscription_publishCallback server sub se env =
     (case publishCallbackPass server sub se env of
        None \<Rightarrow> None
      | Some (None, se1, env1, moreFlag) \<Rightarrow> Some (None, se1, env1)
      | Some (Some sub1, se1, env1, moreFlag) \<Rightarrow>
          if moreFlag then UA_Subscription_publishCallback server sub1 se1 env1
          else Some (Some sub1, se1, env1))"
  by pat_completeness auto
termination
  apply (relation "measure (\<lambda>(server, sub, se, env). length (responseQueue se))")
   apply simp
  apply (auto simp: publishCallbackPass_def commitPublishResponse_def Let_def
              split: prod.splits if_splits list.splits option.splits bool.splits)
  done

declare UA_Subscription_publishCallback.simps [simp del]

section \<open>Answering publish requests without a subscription\<close>

text \<open>The \<^verbatim>\<open>while\<close> loop of \<^verbatim>\<open>UA_Subscription_answerPublishRequestsNoSubscription\<close>: it yields
  what is left of the response queue. Destroying the envelope releases what its notification
  message holds.\<close>

fun answerPublishRequests ::
  "UA_SecureChannel option \<Rightarrow> UA_PublishResponseEntry list \<Rightarrow> Env
     \<Rightarrow> UA_PublishResponseEntry list \<times> Env" where
  "answerPublishRequests ch [] env = ([], env)"
| "answerPublishRequests ch (pre # rest) env =
     (let response1 = (response pre)\<lparr>serviceResult := UA_STATUSCODE_BADNOSUBSCRIPTION,
                                      timestamp := now env\<rparr>;
          env1 = env\<lparr>sent := sent env @
                          [\<lparr>sm_channel = ch, sm_requestId = requestId pre,
                            sm_response = response1\<rparr>]\<rparr>;
          env2 = snd (UA_NotificationMessage_deleteMembers (notificationMessage response1) env1)
      in answerPublishRequests ch rest env2)"

definition UA_Subscription_answerPublishRequestsNoSubscription ::
  "UA_Server \<Rightarrow> UA_Session option \<Rightarrow> Env \<Rightarrow> UA_Session option \<times> Env" where
  "UA_Subscription_answerPublishRequestsNoSubscription server session env =
     (case session of
        None \<Rightarrow> (None, env)
      | Some se \<Rightarrow>
          if serverSubscriptions se \<noteq> [] then (Some se, env)
          else (case answerPublishRequests (channel se) (responseQueue se) env of
                  (q, env1) \<Rightarrow> (Some (se\<lparr>responseQueue := q\<rparr>), env1)))"

section \<open>Runs of the engine\<close>

text \<open>Pushing a list of entries, first to last, onto the retransmission queue.\<close>

fun addRetransmissionMessages ::
  "UA_Server \<Rightarrow> UA_NotificationMessageEntry list \<Rightarrow> UA_Subscription \<Rightarrow> Env
     \<Rightarrow> (UA_Subscription \<times> Env) option" where
  "addRetransmissionMessages server [] sub env = Some (sub, env)"
| "addRetransmissionMessages server (entry # entries) sub env =
     (case UA_Subscription_addRetransmissionMessage server sub entry env of
        None \<Rightarrow> None
      | Some (sub1, env1) \<Rightarrow> addRetransmissionMessages server entries sub1 env1)"

text \<open>
  A scheduler tick: the callback runs on the subscription unless an earlier tick has deleted
  it, which also unregisters the callback.
\<close>

definition tick ::
  "UA_Server \<Rightarrow> (UA_Subscription option \<times> UA_Session \<times> Env) option
     \<Rightarrow> (UA_Subscription option \<times> UA_Session \<times> Env) option" where
  "tick server st =
     (case st of
        None \<Rightarrow> None
      | Some (None, se, env) \<Rightarrow> Some (None, se, env)
      | Some (Some sub, se, env) \<Rightarrow> UA_Subscription_publishCallback server sub se env)"

text \<open>The publish service banks envelopes whose notification message is initialised: it
  holds no notification data.\<close>

definition envelopesInitialised :: "UA_Session \<Rightarrow> bool" where
  "envelopesInitialised se =
     list_all (\<lambda>pre. notificationData (notificationMessage (response pre)) = [])
       (responseQueue se)"

text \<open>
  Reading the messages handed to the channel: a response is data-bearing when its
  notification message holds notification data (a keep-alive holds none), and it carries the
  sequence number of its notification message.
\<close>

definition isDataBearing :: "SentMessage \<Rightarrow> bool" where
  "isDataBearing m \<longleftrightarrow> notificationData (notificationMessage (sm_response m)) \<noteq> []"

definition sentSequenceNumber :: "SentMessage \<Rightarrow> UA_UInt32" where
  "sentSequenceNumber m = msg_sequenceNumber (notificationMessage (sm_response m))"

definition dataBearing :: "SentMessage list \<Rightarrow> SentMessage list" where
  "dataBearing ms = filter isDataBearing ms"

text \<open>The sequence numbers a counter value \<open>c\<close> prescribes for a series of responses: each
  carries the successor of the counter, and only a data-bearing one advances it.\<close>

fun expectedSequenceNumbers :: "UA_UInt32 \<Rightarrow> SentMessage list \<Rightarrow> UA_UInt32 list" where
  "expectedSequenceNumbers c [] = []"
| "expectedSequenceNumbers c (m # ms) =
     (c + 1) # expectedSequenceNumbers (if isDataBearing m then c + 1 else c) ms"

text \<open>
  The states a subscription reaches from a start state: by publish callbacks that return,
  and, in between, by whatever else acts on subscription, session and environment
  (sampling, banked publish requests, acknowledgements, the clock, the allocator), as long as
  it leaves the sequence-number counter and the channel's log alone and banks initialised
  envelopes.
\<close>

inductive engineRun ::
  "UA_Server \<Rightarrow> UA_Subscription \<times> UA_Session \<times> Env
     \<Rightarrow> UA_Subscription option \<times> UA_Session \<times> Env \<Rightarrow> bool"
  for server :: UA_Server and start :: "UA_Subscription \<times> UA_Session \<times> Env" where
  started: "start = (sub, se, env) \<Longrightarrow> engineRun server start (Some sub, se, env)"
| tick: "engineRun server start (Some sub, se, env) \<Longrightarrow>
         UA_Subscription_publishCallback server sub se env = Some st \<Longrightarrow>
         engineRun server start st"
| environment:
        "engineRun server start (Some sub, se, env) \<Longrightarrow>
         sequenceNumber sub1 = sequenceNumber sub \<Longrightarrow> sent env1 = sent env \<Longrightarrow>
         envelopesInitialised se1 \<Longrightarrow>
         engineRun server start (Some sub1, se1, env1)"

text \<open>What the scenarios read off a response handed to the channel: the request it answers,
  its sequence number, its \<open>moreNotifications\<close> flag and its notification data; and the
  notification a queued value becomes when it is moved into a message.\<close>

definition responseSummary ::
  "SentMessage \<Rightarrow> UA_UInt32 \<times> UA_UInt32 \<times> bool \<times> UA_ExtensionObject list" where
  "responseSummary m =
     (sm_requestId m, sentSequenceNumber m, moreNotifications (sm_response m),
      notificationData (notificationMessage (sm_response m)))"

definition notificationOf :: "MonitoredItem_queuedValue \<Rightarrow> UA_MonitoredItemNotification" where
  "notificationOf qv = \<lparr>clientHandle = qv_clientHandle qv, dataValue = qv_value qv\<rparr>"

text \<open>What a failed preparation leaves in the envelope's notification message, by the
  number \<open>k\<close> of allocations that succeeded before the failing one: nothing touched, the
  data pointer nulled, or the message cleared by \<^verbatim>\<open>UA_NotificationMessage_deleteMembers\<close>.\<close>

definition scratchMessage :: "nat \<Rightarrow> UA_NotificationMessage \<Rightarrow> UA_NotificationMessage" where
  "scratchMessage k message =
     (if k = 0 then message
      else if k = 1 then message\<lparr>notificationData := []\<rparr>
      else UA_NotificationMessage_init)"

text \<open>Sample states for instantiating the theorems: a subscription as
  \<^verbatim>\<open>UA_Subscription_new\<close> leaves it (zeroed, state \<open>NORMAL\<close>) with identifier 1, publishing
  enabled and two notifications per publish; an initialised notification message carrying a
  given sequence number; an environment with nothing sent and an allocator that succeeds.\<close>

definition sampleSubscription :: UA_Subscription where
  "sampleSubscription =
     \<lparr>lifeTimeCount = 0, maxKeepAliveCount = 0, subscriptionID = 1,
      notificationsPerPublish = 2, publishingEnabled = True,
      state = UA_SUBSCRIPTIONSTATE_NORMAL, sequenceNumber = 0,
      currentKeepAliveCount = 0, currentLifetimeCount = 0, monitoredItems = [],
      retransmissionQueue = [], retransmissionQueueSize = 0\<rparr>"

definition sampleMessage :: "UA_UInt32 \<Rightarrow> UA_NotificationMessage" where
  "sampleMessage n = UA_NotificationMessage_init\<lparr>msg_sequenceNumber := n\<rparr>"

definition sampleEnv :: Env where
  "sampleEnv = \<lparr>sent = [], now = 0, allocOutcomes = [], allocated = 0\<rparr>"

text \<open>An initialised envelope for a given request, a session with a channel holding given
  envelopes and the sample subscription, and a monitored item holding given values.\<close>

definition sampleEnvelope :: "UA_UInt32 \<Rightarrow> UA_PublishResponseEntry" where
  "sampleEnvelope rid =
     \<lparr>requestId = rid,
      response = \<lparr>timestamp = 0, serviceResult = UA_STATUSCODE_GOOD, subscriptionId = 0,
                  availableSequenceNumbers = [], moreNotifications = False,
                  notificationMessage = UA_NotificationMessage_init\<rparr>\<rparr>"

definition sampleSession :: "UA_PublishResponseEntry list \<Rightarrow> UA_Session" where
  "sampleSession q = \<lparr>channel = Some 0, responseQueue = q, serverSubscriptions = [1]\<rparr>"

definition sampleItem :: "UA_DataValue list \<Rightarrow> UA_MonitoredItem" where
  "sampleItem vs =
     \<lparr>itemId = 1, queue = map (\<lambda>v. \<lparr>qv_clientHandle = 7, qv_value = v\<rparr>) vs,
      currentQueueSize = of_nat (length vs)\<rparr>"

section \<open>Properties of the retransmission queue\<close>

lemma find_None_iff:
  "findRetransmissionMessage n q = None \<longleftrightarrow> n \<notin> msg_sequenceNumber ` set q"
  by (induction q) auto

lemma find_Some_split:
  "findRetransmissionMessage n q = Some entry \<Longrightarrow>
     \<exists>before after. q = before @ entry # after \<and> msg_sequenceNumber entry = n \<and>
        n \<notin> msg_sequenceNumber ` set before \<and>
        unlinkRetransmissionMessage n q = before @ after"
proof (induction q)
  case Nil
  then show ?case by simp
next
  case (Cons e q)
  show ?case
  proof (cases "msg_sequenceNumber e = n")
    case True
    with Cons.prems have "entry = e" by simp
    with True show ?thesis by (intro exI[of _ "[]"] exI[of _ q]) simp
  next
    case False
    with Cons.prems have "findRetransmissionMessage n q = Some entry" by simp
    from Cons.IH[OF this] obtain before after where
      h: "q = before @ entry # after" "msg_sequenceNumber entry = n"
         "n \<notin> msg_sequenceNumber ` set before"
         "unlinkRetransmissionMessage n q = before @ after" by blast
    with False show ?thesis
      by (intro exI[of _ "e # before"] exI[of _ after]) simp
  qed
qed

text \<open>
  C8, as amended. Removing by sequence number answers \<open>Good\<close> exactly when some entry of the
  queue carries the number. On a miss the status is \<open>BadSequenceNumberUnknown\<close> and
  subscription and environment are unchanged. On a hit exactly one entry is unlinked and
  destroyed (its blocks are released): the first one from the head that carries the number.
  The other entries keep their order, the size field drops by one, and so does the number of
  entries carrying the number. An entry with the number remains exactly when a second one was
  queued behind the removed one; none remains when the sequence numbers of the queue are
  pairwise distinct.
\<close>

theorem removeRetransmissionMessage_spec:
  "(fst (UA_Subscription_removeRetransmissionMessage sub n env) = UA_STATUSCODE_GOOD
      \<longleftrightarrow> n \<in> msg_sequenceNumber ` set (retransmissionQueue sub)) \<and>
   (n \<notin> msg_sequenceNumber ` set (retransmissionQueue sub) \<longrightarrow>
      UA_Subscription_removeRetransmissionMessage sub n env
        = (UA_STATUSCODE_BADSEQUENCENUMBERUNKNOWN, sub, env)) \<and>
   (n \<in> msg_sequenceNumber ` set (retransmissionQueue sub) \<longrightarrow>
      (\<exists>before entry after.
         retransmissionQueue sub = before @ entry # after \<and>
         msg_sequenceNumber entry = n \<and>
         n \<notin> msg_sequenceNumber ` set before \<and>
         UA_Subscription_removeRetransmissionMessage sub n env
           = (UA_STATUSCODE_GOOD,
              sub\<lparr>retransmissionQueue := before @ after,
                  retransmissionQueueSize := retransmissionQueueSize sub - 1\<rparr>,
              env\<lparr>allocated := allocated env - blocksMessage entry - 1\<rparr>) \<and>
         length (filter (\<lambda>e. msg_sequenceNumber e = n) (before @ after)) + 1
           = length (filter (\<lambda>e. msg_sequenceNumber e = n) (retransmissionQueue sub)) \<and>
         (n \<in> msg_sequenceNumber ` set (before @ after)
            \<longleftrightarrow> n \<in> msg_sequenceNumber ` set after) \<and>
         (distinct (map msg_sequenceNumber (retransmissionQueue sub)) \<longrightarrow>
            n \<notin> msg_sequenceNumber ` set (before @ after))))"
proof (cases "findRetransmissionMessage n (retransmissionQueue sub)")
  case None
  then have "n \<notin> msg_sequenceNumber ` set (retransmissionQueue sub)"
    by (simp add: find_None_iff)
  with None show ?thesis
    by (simp add: UA_Subscription_removeRetransmissionMessage_def)
next
  case (Some entry)
  from find_Some_split[OF Some] obtain before after where
    h: "retransmissionQueue sub = before @ entry # after" "msg_sequenceNumber entry = n"
       "n \<notin> msg_sequenceNumber ` set before"
       "unlinkRetransmissionMessage n (retransmissionQueue sub) = before @ after" by blast
  have mem: "n \<in> msg_sequenceNumber ` set (retransmissionQueue sub)"
    using h(1,2) by force
  have res: "UA_Subscription_removeRetransmissionMessage sub n env
           = (UA_STATUSCODE_GOOD,
              sub\<lparr>retransmissionQueue := before @ after,
                  retransmissionQueueSize := retransmissionQueueSize sub - 1\<rparr>,
              env\<lparr>allocated := allocated env - blocksMessage entry - 1\<rparr>)"
    using Some h(4)
    by (simp add: UA_Subscription_removeRetransmissionMessage_def UA_free_def
          UA_NotificationMessage_deleteMembers_def)
  have cnt: "length (filter (\<lambda>e. msg_sequenceNumber e = n) (before @ after)) + 1
           = length (filter (\<lambda>e. msg_sequenceNumber e = n) (retransmissionQueue sub))"
    using h(1,2) by simp
  have rem: "n \<in> msg_sequenceNumber ` set (before @ after)
            \<longleftrightarrow> n \<in> msg_sequenceNumber ` set after"
    using h(3) by auto
  have dist: "distinct (map msg_sequenceNumber (retransmissionQueue sub)) \<longrightarrow>
            n \<notin> msg_sequenceNumber ` set (before @ after)"
    using h(1,2,3) by auto
  have "\<exists>before entry after.
         retransmissionQueue sub = before @ entry # after \<and>
         msg_sequenceNumber entry = n \<and>
         n \<notin> msg_sequenceNumber ` set before \<and>
         UA_Subscription_removeRetransmissionMessage sub n env
           = (UA_STATUSCODE_GOOD,
              sub\<lparr>retransmissionQueue := before @ after,
                  retransmissionQueueSize := retransmissionQueueSize sub - 1\<rparr>,
              env\<lparr>allocated := allocated env - blocksMessage entry - 1\<rparr>) \<and>
         length (filter (\<lambda>e. msg_sequenceNumber e = n) (before @ after)) + 1
           = length (filter (\<lambda>e. msg_sequenceNumber e = n) (retransmissionQueue sub)) \<and>
         (n \<in> msg_sequenceNumber ` set (before @ after)
            \<longleftrightarrow> n \<in> msg_sequenceNumber ` set after) \<and>
         (distinct (map msg_sequenceNumber (retransmissionQueue sub)) \<longrightarrow>
            n \<notin> msg_sequenceNumber ` set (before @ after))"
    by (intro exI[of _ before] exI[of _ entry] exI[of _ after] conjI)
       (rule h(1), rule h(2), rule h(3), rule res, rule cnt, rule rem, rule dist)
  with mem res show ?thesis by simp
qed

text \<open>The claim as first stated fails where a sequence number is queued twice, as it is once
  the 32-bit counter has wrapped around while an old entry is still unacknowledged: the
  removal answers \<open>Good\<close> and an entry with the number is still queued.\<close>

theorem removeRetransmissionMessage_duplicate_counterexample:
  "fst (UA_Subscription_removeRetransmissionMessage
          (sampleSubscription\<lparr>retransmissionQueue :=
                                [(sampleMessage 2)\<lparr>publishTime := 9\<rparr>, sampleMessage 3,
                                 sampleMessage 2],
                              retransmissionQueueSize := 3\<rparr>) 2 sampleEnv)
     = UA_STATUSCODE_GOOD \<and>
   retransmissionQueue (fst (snd
     (UA_Subscription_removeRetransmissionMessage
          (sampleSubscription\<lparr>retransmissionQueue :=
                                [(sampleMessage 2)\<lparr>publishTime := 9\<rparr>, sampleMessage 3,
                                 sampleMessage 2],
                              retransmissionQueueSize := 3\<rparr>) 2 sampleEnv)))
     = [sampleMessage 3, sampleMessage 2] \<and>
   msg_sequenceNumber (sampleMessage 2) = 2"
  by (simp add: sampleSubscription_def sampleMessage_def sampleEnv_def
        UA_NotificationMessage_init_def UA_Subscription_removeRetransmissionMessage_def)

theorem removeRetransmissionMessage_spec_witness:
  "2 \<in> msg_sequenceNumber ` set [sampleMessage 3, sampleMessage 2, sampleMessage 1] \<and>
   7 \<notin> msg_sequenceNumber ` set [sampleMessage 3, sampleMessage 2, sampleMessage 1] \<and>
   distinct (map msg_sequenceNumber [sampleMessage 3, sampleMessage 2, sampleMessage 1]) \<and>
   fst (UA_Subscription_removeRetransmissionMessage
          (sampleSubscription\<lparr>retransmissionQueue :=
                                [sampleMessage 3, sampleMessage 2, sampleMessage 1],
                              retransmissionQueueSize := 3\<rparr>) 2 sampleEnv)
     = UA_STATUSCODE_GOOD \<and>
   map msg_sequenceNumber (retransmissionQueue (fst (snd
     (UA_Subscription_removeRetransmissionMessage
          (sampleSubscription\<lparr>retransmissionQueue :=
                                [sampleMessage 3, sampleMessage 2, sampleMessage 1],
                              retransmissionQueueSize := 3\<rparr>) 2 sampleEnv)))) = [3, 1] \<and>
   retransmissionQueueSize (fst (snd
     (UA_Subscription_removeRetransmissionMessage
          (sampleSubscription\<lparr>retransmissionQueue :=
                                [sampleMessage 3, sampleMessage 2, sampleMessage 1],
                              retransmissionQueueSize := 3\<rparr>) 2 sampleEnv))) = 2 \<and>
   fst (UA_Subscription_removeRetransmissionMessage
          (sampleSubscription\<lparr>retransmissionQueue :=
                                [sampleMessage 3, sampleMessage 2, sampleMessage 1],
                              retransmissionQueueSize := 3\<rparr>) 7 sampleEnv)
     = UA_STATUSCODE_BADSEQUENCENUMBERUNKNOWN"
  using removeRetransmissionMessage_spec
          [of "sampleSubscription\<lparr>retransmissionQueue :=
                                [sampleMessage 3, sampleMessage 2, sampleMessage 1],
                              retransmissionQueueSize := 3\<rparr>" 2 sampleEnv]
        removeRetransmissionMessage_spec
          [of "sampleSubscription\<lparr>retransmissionQueue :=
                                [sampleMessage 3, sampleMessage 2, sampleMessage 1],
                              retransmissionQueueSize := 3\<rparr>" 7 sampleEnv]
  by (simp add: sampleSubscription_def sampleMessage_def sampleEnv_def
        UA_NotificationMessage_init_def UA_Subscription_removeRetransmissionMessage_def)

lemma add_below_bound:
  assumes "unat (retransmissionQueueSize sub) = length (retransmissionQueue sub)"
    and "retransmissionQueueSize sub < maxRetransmissionQueueSize server"
  shows "UA_Subscription_addRetransmissionMessage server sub entry env =
           Some (sub\<lparr>retransmissionQueue := entry # retransmissionQueue sub,
                     retransmissionQueueSize := retransmissionQueueSize sub + 1\<rparr>, env)"
  using assms by (simp add: UA_Subscription_addRetransmissionMessage_def not_le[symmetric])

lemma add_at_bound:
  assumes "unat (retransmissionQueueSize sub) = length (retransmissionQueue sub)"
    and "0 < maxRetransmissionQueueSize server"
    and "retransmissionQueueSize sub = maxRetransmissionQueueSize server"
  shows "UA_Subscription_addRetransmissionMessage server sub entry env =
           Some (sub\<lparr>retransmissionQueue := entry # butlast (retransmissionQueue sub),
                     retransmissionQueueSize := retransmissionQueueSize sub\<rparr>,
                 env\<lparr>allocated := allocated env
                        - blocksEntries [last (retransmissionQueue sub)]\<rparr>)"
proof -
  have "retransmissionQueue sub \<noteq> []"
    using assms by (auto simp: word_less_nat_alt)
  then show ?thesis
    using assms
    by (simp add: UA_Subscription_addRetransmissionMessage_def Let_def UA_free_def
          UA_NotificationMessage_deleteMembers_def blocksEntries_def)
qed

lemma drop_to_last: "xs \<noteq> [] \<Longrightarrow> drop (length xs - 1) xs = [last xs]"
  by (metis append_butlast_last_id append_eq_conv_conj length_butlast)

lemma add_step:
  assumes inv: "unat (retransmissionQueueSize sub) = length (retransmissionQueue sub)"
    and pos: "0 < maxRetransmissionQueueSize server"
    and le: "retransmissionQueueSize sub \<le> maxRetransmissionQueueSize server"
  shows "\<exists>sub1 env1.
           UA_Subscription_addRetransmissionMessage server sub entry env = Some (sub1, env1) \<and>
           retransmissionQueue sub1 =
             take (unat (maxRetransmissionQueueSize server)) (entry # retransmissionQueue sub) \<and>
           unat (retransmissionQueueSize sub1) = length (retransmissionQueue sub1) \<and>
           retransmissionQueueSize sub1 \<le> maxRetransmissionQueueSize server \<and>
           allocated env1 = allocated env
             - blocksEntries (drop (unat (maxRetransmissionQueueSize server))
                  (entry # retransmissionQueue sub))"
proof (cases "retransmissionQueueSize sub < maxRetransmissionQueueSize server")
  case True
  then have lt: "length (retransmissionQueue sub) < unat (maxRetransmissionQueueSize server)"
    using inv by (simp add: word_less_nat_alt)
  have "unat (retransmissionQueueSize sub) + 1 < 2 ^ 32"
    using True unsigned_less[of "maxRetransmissionQueueSize server", where ?'a=nat]
    by (simp add: word_less_nat_alt)
  then have sz: "unat (retransmissionQueueSize sub + 1) = Suc (length (retransmissionQueue sub))"
    using inv by (simp add: unat_word_ariths)
  have le': "retransmissionQueueSize sub + 1 \<le> maxRetransmissionQueueSize server"
    using True by (simp add: inc_le)
  show ?thesis
    using add_below_bound[OF inv True, of entry env] lt sz le'
    by (simp add: blocksEntries_def)
next
  case False
  with le have eq: "retransmissionQueueSize sub = maxRetransmissionQueueSize server" by simp
  then have len: "length (retransmissionQueue sub) = unat (maxRetransmissionQueueSize server)"
    using inv by simp
  have ne: "retransmissionQueue sub \<noteq> []"
    using len pos by (auto simp: word_less_nat_alt)
  have tk: "take (unat (maxRetransmissionQueueSize server)) (entry # retransmissionQueue sub)
           = entry # butlast (retransmissionQueue sub)"
    using len ne
    by (cases "unat (maxRetransmissionQueueSize server)") (auto simp: butlast_conv_take)
  have dr: "drop (unat (maxRetransmissionQueueSize server)) (entry # retransmissionQueue sub)
           = [last (retransmissionQueue sub)]"
    using len ne drop_to_last[of "retransmissionQueue sub"]
    by (cases "unat (maxRetransmissionQueueSize server)") auto
  have mpos: "0 < unat (maxRetransmissionQueueSize server)"
    using pos by (simp add: word_less_nat_alt)
  show ?thesis
    using add_at_bound[OF inv pos eq, of entry env] tk dr inv eq ne len mpos
    by simp
qed

lemma take_append_take: "take m (xs @ take m ys) = take m (xs @ ys)"
  by (simp add: min_def)

lemma blocksEntries_append:
  "blocksEntries (xs @ ys) = blocksEntries xs + blocksEntries ys"
  by (simp add: blocksEntries_def)

lemma blocksEntries_drop_split:
  "blocksEntries (drop m (xs @ ys))
     = blocksEntries (drop m (xs @ take m ys)) + blocksEntries (drop m ys)"
proof -
  have a: "drop (m - length xs) (take m ys)
             = take (m - (m - length xs)) (drop (m - length xs) ys)"
    by (simp add: drop_take)
  have b: "drop m ys = drop (m - (m - length xs)) (drop (m - length xs) ys)"
    by simp
  have "drop (m - length xs) ys = drop (m - length xs) (take m ys) @ drop m ys"
    unfolding a b by (rule append_take_drop_id[symmetric])
  then show ?thesis
    by (simp add: blocksEntries_append)
qed

lemma addRetransmissionMessages_bounded:
  assumes "0 < maxRetransmissionQueueSize server"
    and "unat (retransmissionQueueSize sub) = length (retransmissionQueue sub)"
    and "retransmissionQueueSize sub \<le> maxRetransmissionQueueSize server"
  shows "\<exists>sub1 env1.
           addRetransmissionMessages server entries sub env = Some (sub1, env1) \<and>
           retransmissionQueue sub1 =
             take (unat (maxRetransmissionQueueSize server))
               (rev entries @ retransmissionQueue sub) \<and>
           unat (retransmissionQueueSize sub1) = length (retransmissionQueue sub1) \<and>
           retransmissionQueueSize sub1 \<le> maxRetransmissionQueueSize server \<and>
           allocated env1 = allocated env
             - blocksEntries (drop (unat (maxRetransmissionQueueSize server))
                  (rev entries @ retransmissionQueue sub))"
  using assms
proof (induction entries arbitrary: sub env)
  case Nil
  then show ?case by (simp add: word_le_nat_alt blocksEntries_def)
next
  case (Cons entry entries)
  from add_step[OF Cons.prems(2) Cons.prems(1) Cons.prems(3), of entry env]
  obtain sub1 env1 where
    s: "UA_Subscription_addRetransmissionMessage server sub entry env = Some (sub1, env1)"
       "retransmissionQueue sub1 =
          take (unat (maxRetransmissionQueueSize server)) (entry # retransmissionQueue sub)"
       "unat (retransmissionQueueSize sub1) = length (retransmissionQueue sub1)"
       "retransmissionQueueSize sub1 \<le> maxRetransmissionQueueSize server"
       "allocated env1 = allocated env
          - blocksEntries (drop (unat (maxRetransmissionQueueSize server))
               (entry # retransmissionQueue sub))"
    by blast
  from Cons.IH[OF Cons.prems(1) s(3) s(4), of env1]
  obtain sub2 env2 where
    t: "addRetransmissionMessages server entries sub1 env1 = Some (sub2, env2)"
       "retransmissionQueue sub2 =
          take (unat (maxRetransmissionQueueSize server))
            (rev entries @ retransmissionQueue sub1)"
       "unat (retransmissionQueueSize sub2) = length (retransmissionQueue sub2)"
       "retransmissionQueueSize sub2 \<le> maxRetransmissionQueueSize server"
       "allocated env2 = allocated env1
          - blocksEntries (drop (unat (maxRetransmissionQueueSize server))
               (rev entries @ retransmissionQueue sub1))"
    by blast
  have q: "retransmissionQueue sub2 =
          take (unat (maxRetransmissionQueueSize server))
            (rev (entry # entries) @ retransmissionQueue sub)"
    using t(2) s(2) take_append_take[of _ "rev entries" "entry # retransmissionQueue sub"]
    by simp
  have a: "allocated env2 = allocated env
             - blocksEntries (drop (unat (maxRetransmissionQueueSize server))
                  (rev (entry # entries) @ retransmissionQueue sub))"
    using t(5) s(5) s(2)
      blocksEntries_drop_split[of "unat (maxRetransmissionQueueSize server)" "rev entries"
         "entry # retransmissionQueue sub"]
    by simp
  show ?case
    using s(1) t(1) q t(3) t(4) a by simp
qed

text \<open>
  C4. With a bound \<open>M > 0\<close>, starting from a queue whose size field equals its length and is
  within the bound, pushing entries one after the other always succeeds and leaves the \<open>M\<close>
  newest of the pushed and the earlier entries, newest first: each push links at the head and,
  at the bound, unlinks and destroys the tail entry. The size field still equals the length
  and is within the bound. Starting from the empty queue, \<open>N\<close> pushes leave \<open>min N M\<close>
  entries, carrying the most recently pushed sequence numbers.
\<close>

theorem retransmission_queue_bounded_fifo:
  assumes "0 < maxRetransmissionQueueSize server"
    and "unat (retransmissionQueueSize sub) = length (retransmissionQueue sub)"
    and "retransmissionQueueSize sub \<le> maxRetransmissionQueueSize server"
  shows "\<exists>sub1 env1.
           addRetransmissionMessages server entries sub env = Some (sub1, env1) \<and>
           retransmissionQueue sub1 =
             take (unat (maxRetransmissionQueueSize server))
               (rev entries @ retransmissionQueue sub) \<and>
           unat (retransmissionQueueSize sub1) = length (retransmissionQueue sub1) \<and>
           retransmissionQueueSize sub1 \<le> maxRetransmissionQueueSize server \<and>
           allocated env1 = allocated env
             - blocksEntries (drop (unat (maxRetransmissionQueueSize server))
                  (rev entries @ retransmissionQueue sub)) \<and>
           (retransmissionQueue sub = [] \<longrightarrow>
              length (retransmissionQueue sub1)
                = min (length entries) (unat (maxRetransmissionQueueSize server)) \<and>
              map msg_sequenceNumber (retransmissionQueue sub1)
                = take (unat (maxRetransmissionQueueSize server))
                    (rev (map msg_sequenceNumber entries)))"
proof -
  from addRetransmissionMessages_bounded[OF assms, of entries env]
  obtain sub1 env1 where
    h: "addRetransmissionMessages server entries sub env = Some (sub1, env1)"
       "retransmissionQueue sub1 =
          take (unat (maxRetransmissionQueueSize server))
            (rev entries @ retransmissionQueue sub)"
       "unat (retransmissionQueueSize sub1) = length (retransmissionQueue sub1)"
       "retransmissionQueueSize sub1 \<le> maxRetransmissionQueueSize server"
       "allocated env1 = allocated env
          - blocksEntries (drop (unat (maxRetransmissionQueueSize server))
               (rev entries @ retransmissionQueue sub))"
    by blast
  have "retransmissionQueue sub = [] \<longrightarrow>
          length (retransmissionQueue sub1)
            = min (length entries) (unat (maxRetransmissionQueueSize server)) \<and>
          map msg_sequenceNumber (retransmissionQueue sub1)
            = take (unat (maxRetransmissionQueueSize server))
                (rev (map msg_sequenceNumber entries))"
    using h(2) by (simp add: take_map rev_map)
  with h show ?thesis by blast
qed

theorem retransmission_queue_bounded_fifo_witness:
  "\<exists>sub1 env1.
     addRetransmissionMessages \<lparr>maxRetransmissionQueueSize = 2\<rparr>
       [sampleMessage 1, sampleMessage 2, sampleMessage 3] sampleSubscription sampleEnv
       = Some (sub1, env1) \<and>
     map msg_sequenceNumber (retransmissionQueue sub1) = [3, 2] \<and>
     retransmissionQueueSize sub1 = 2 \<and>
     allocated env1 = allocated sampleEnv - 1"
proof -
  have a: "0 < maxRetransmissionQueueSize \<lparr>maxRetransmissionQueueSize = 2\<rparr>"
    by simp
  have b: "unat (retransmissionQueueSize sampleSubscription)
             = length (retransmissionQueue sampleSubscription)"
    by (simp add: sampleSubscription_def)
  have c: "retransmissionQueueSize sampleSubscription
             \<le> maxRetransmissionQueueSize \<lparr>maxRetransmissionQueueSize = 2\<rparr>"
    by (simp add: sampleSubscription_def)
  from retransmission_queue_bounded_fifo[OF a b c,
         of "[sampleMessage 1, sampleMessage 2, sampleMessage 3]" sampleEnv]
  obtain sub1 env1 where
    h: "addRetransmissionMessages \<lparr>maxRetransmissionQueueSize = 2\<rparr>
          [sampleMessage 1, sampleMessage 2, sampleMessage 3] sampleSubscription sampleEnv
          = Some (sub1, env1)"
       "retransmissionQueue sub1 =
          take (unat (maxRetransmissionQueueSize \<lparr>maxRetransmissionQueueSize = 2\<rparr>))
            (rev [sampleMessage 1, sampleMessage 2, sampleMessage 3]
               @ retransmissionQueue sampleSubscription)"
       "unat (retransmissionQueueSize sub1) = length (retransmissionQueue sub1)"
       "allocated env1 = allocated sampleEnv
          - blocksEntries (drop (unat (maxRetransmissionQueueSize
                \<lparr>maxRetransmissionQueueSize = 2\<rparr>))
               (rev [sampleMessage 1, sampleMessage 2, sampleMessage 3]
                  @ retransmissionQueue sampleSubscription))"
    by blast
  have q: "map msg_sequenceNumber (retransmissionQueue sub1) = [3, 2]"
    using h(2)
    by (simp add: sampleMessage_def UA_NotificationMessage_init_def sampleSubscription_def)
  have "unat (retransmissionQueueSize sub1) = 2"
    using h(3) arg_cong[OF q, of length] by simp
  then have z: "retransmissionQueueSize sub1 = 2"
    using word_unat_eq_iff[of "retransmissionQueueSize sub1" 2] by simp
  have al: "allocated env1 = allocated sampleEnv - 1"
    using h(4)
    by (simp add: sampleMessage_def UA_NotificationMessage_init_def sampleSubscription_def
          blocksEntries_def blocksMessage_def)
  show ?thesis
    by (intro exI[of _ sub1] exI[of _ env1] conjI) (rule h(1), rule q, rule z, rule al)
qed

section \<open>Properties of counting\<close>

lemma countQueue_flag:
  "countQueue cap q (n, m) = (n', m') \<Longrightarrow> n \<le> n' \<and> (m' \<longrightarrow> m \<or> cap \<le> n')"
proof (induction q arbitrary: n m)
  case Nil
  then show ?case by simp
next
  case (Cons qv q)
  show ?case
  proof (cases "cap \<le> n")
    case True
    with Cons.prems show ?thesis by simp
  next
    case False
    with Cons.prems have "countQueue cap q (n + 1, m) = (n', m')" by simp
    from Cons.IH[OF this] show ?thesis by simp
  qed
qed

lemma countItems_flag:
  "countItems cap mons (n, m) = (n', m') \<Longrightarrow> n \<le> n' \<and> (m' \<longrightarrow> m \<or> cap \<le> n')"
proof (induction mons arbitrary: n m)
  case Nil
  then show ?case by simp
next
  case (Cons mon mons)
  obtain n1 m1 where c: "countQueue cap (queue mon) (n, m) = (n1, m1)"
    by (cases "countQueue cap (queue mon) (n, m)")
  with Cons.prems have "countItems cap mons (n1, m1) = (n', m')" by simp
  from Cons.IH[OF this] countQueue_flag[OF c] show ?case by auto
qed

lemma count_zero_no_more:
  assumes "1 \<le> notificationsPerPublish sub"
    and "countQueuedNotifications sub False = (0, moreFlag)"
  shows "\<not> moreFlag"
proof (cases "publishingEnabled sub")
  case False
  with assms(2) show ?thesis by (simp add: countQueuedNotifications_def)
next
  case True
  with assms(2) have
    "countItems (unat (notificationsPerPublish sub)) (monitoredItems sub) (0, False)
       = (0, moreFlag)"
    by (simp add: countQueuedNotifications_def)
  from countItems_flag[OF this] have "moreFlag \<longrightarrow> unat (notificationsPerPublish sub) = 0"
    by simp
  moreover have "unat (notificationsPerPublish sub) \<noteq> 0"
    using assms(1) by (simp add: word_le_nat_alt)
  ultimately show ?thesis by blast
qed

section \<open>One pass of the publish callback\<close>

lemma UA_malloc_frame:
  "UA_malloc env = (ok, env1) \<Longrightarrow> sent env1 = sent env \<and> now env1 = now env"
  by (auto simp: UA_malloc_def split: list.splits)

lemma UA_Array_new_frame:
  "UA_Array_new n env = (r, env1) \<Longrightarrow> sent env1 = sent env \<and> now env1 = now env"
  by (auto simp: UA_Array_new_def dest: UA_malloc_frame split: if_splits prod.splits)

lemma prepare_frame:
  assumes "prepareNotificationMessage sub message n env = (rv, sub2, message2, env2)"
  shows "sent env2 = sent env \<and> now env2 = now env \<and>
         sub2\<lparr>monitoredItems := monitoredItems sub\<rparr> = sub \<and>
         sequenceNumber sub2 = sequenceNumber sub \<and>
         (rv = UA_STATUSCODE_GOOD \<longrightarrow>
            (\<exists>arr. message2 = message\<lparr>notificationData := [UA_EXTENSIONOBJECT_DECODED arr]\<rparr>)) \<and>
         (rv \<noteq> UA_STATUSCODE_GOOD \<longrightarrow> sub2 = sub \<and> notificationData message2 = [])"
  using assms
  by (auto simp: prepareNotificationMessage_def UA_NotificationMessage_deleteMembers_def
        UA_NotificationMessage_init_def
        dest!: UA_malloc_frame UA_Array_new_frame
        split: prod.splits bool.splits option.splits)

lemma add_fields:
  "UA_Subscription_addRetransmissionMessage server sub entry env = Some (sub2, env2) \<Longrightarrow>
     sequenceNumber sub2 = sequenceNumber sub \<and> subscriptionID sub2 = subscriptionID sub \<and>
     sent env2 = sent env \<and> now env2 = now env"
  by (auto simp: UA_Subscription_addRetransmissionMessage_def Let_def UA_free_def
        UA_NotificationMessage_deleteMembers_def split: if_splits)

lemma commit_result:
  assumes "commitPublishResponse server sub se env pre rest message n moreFlag
             = Some (r, se1, env1, again)"
  shows "again = moreFlag \<and> se1 = se\<lparr>responseQueue := rest\<rparr> \<and>
         (\<exists>sub1 m. r = Some sub1 \<and> sent env1 = sent env @ [m] \<and>
            sm_requestId m = requestId pre \<and> sm_channel m = channel se \<and>
            moreNotifications (sm_response m) = moreFlag \<and>
            subscriptionId (sm_response m) = subscriptionID sub \<and>
            notificationMessage (sm_response m)
              = message\<lparr>publishTime := now env,
                        msg_sequenceNumber := sequenceNumber sub + 1\<rparr> \<and>
            sequenceNumber sub1
              = (if n = 0 then sequenceNumber sub else sequenceNumber sub + 1) \<and>
            state sub1 = UA_SUBSCRIPTIONSTATE_NORMAL \<and>
            currentKeepAliveCount sub1 = 0 \<and> currentLifetimeCount sub1 = 0)"
proof (cases "n = 0")
  case True
  with assms show ?thesis
    by (auto simp: commitPublishResponse_def Let_def)
next
  case False
  with assms obtain sub2 env2 where
    a: "UA_Subscription_addRetransmissionMessage server
          (sub\<lparr>sequenceNumber := sequenceNumber sub + 1\<rparr>)
          (message\<lparr>publishTime := now env, msg_sequenceNumber := sequenceNumber sub + 1\<rparr>) env
          = Some (sub2, env2)"
    by (auto simp: commitPublishResponse_def Let_def split: option.splits)
  from add_fields[OF a] have
    f: "sequenceNumber sub2 = sequenceNumber sub + 1" "sent env2 = sent env"
       "subscriptionID sub2 = subscriptionID sub"
    by simp_all
  from assms False a f show ?thesis
    by (auto simp: commitPublishResponse_def Let_def)
qed

lemma pass_cases:
  assumes c: "countQueuedNotifications sub False = (n, moreFlag)"
    and p: "publishCallbackPass server sub se env = Some (r, se1, env1, again)"
  shows "(\<not> again \<and> sent env1 = sent env \<and>
          (\<forall>sub1. r = Some sub1 \<longrightarrow> sequenceNumber sub1 = sequenceNumber sub) \<and>
          (envelopesInitialised se \<longrightarrow> envelopesInitialised se1) \<and>
          length (responseQueue se1) = length (responseQueue se))
       \<or> (\<exists>pre rest sub1 m.
            responseQueue se = pre # rest \<and> se1 = se\<lparr>responseQueue := rest\<rparr> \<and>
            r = Some sub1 \<and> again = moreFlag \<and> sent env1 = sent env @ [m] \<and>
            sm_requestId m = requestId pre \<and>
            moreNotifications (sm_response m) = moreFlag \<and>
            msg_sequenceNumber (notificationMessage (sm_response m)) = sequenceNumber sub + 1 \<and>
            sequenceNumber sub1
              = (if n = 0 then sequenceNumber sub else sequenceNumber sub + 1) \<and>
            (n = 0 \<longrightarrow> notificationData (notificationMessage (sm_response m))
                       = notificationData (notificationMessage (response pre))) \<and>
            (n \<noteq> 0 \<longrightarrow> notificationData (notificationMessage (sm_response m)) \<noteq> []))"
proof -
  let ?sub1 = "if n = 0 then sub\<lparr>currentKeepAliveCount := currentKeepAliveCount sub + 1\<rparr>
               else sub"
  have sq: "sequenceNumber ?sub1 = sequenceNumber sub" by simp
  show ?thesis
  proof (cases "(n = 0 \<and> currentKeepAliveCount ?sub1 < maxKeepAliveCount ?sub1)
                  \<or> channel se = None")
    case True
    with c p show ?thesis
      by (auto simp: publishCallbackPass_def Let_def split: if_splits)
  next
    case False
    then obtain chv where "channel se = Some chv" by auto
    with False have nf: "channel se = Some chv"
        "\<not> (n = 0 \<and> currentKeepAliveCount ?sub1 < maxKeepAliveCount ?sub1)"
      by simp_all
    show ?thesis
    proof (cases "responseQueue se")
      case Nil
      with c p nf show ?thesis
        by (auto simp: publishCallbackPass_def Let_def UA_Session_deleteSubscription_def
              envelopesInitialised_def split: if_splits)
    next
      case (Cons pre rest)
      show ?thesis
      proof (cases "n = 0")
        case True
        with c p nf Cons have
          "commitPublishResponse server ?sub1 se env pre rest
             (notificationMessage (response pre)) n moreFlag = Some (r, se1, env1, again)"
          by (auto simp: publishCallbackPass_def Let_def split: if_splits)
        from commit_result[OF this] True Cons show ?thesis
          by auto
      next
        case False
        note npos = this
        obtain ok enva where m: "UA_malloc env = (ok, enva)" by (cases "UA_malloc env")
        show ?thesis
        proof (cases ok)
          case False
          with c p nf Cons npos m UA_malloc_frame[OF m] show ?thesis
            by (auto simp: publishCallbackPass_def Let_def)
        next
          case True
          obtain rv sub2 message2 env2 where
            pr: "prepareNotificationMessage sub (notificationMessage (response pre)) n enva
                   = (rv, sub2, message2, env2)"
            by (cases "prepareNotificationMessage sub (notificationMessage (response pre)) n enva")
          note pf = prepare_frame[OF pr] UA_malloc_frame[OF m]
          show ?thesis
          proof (cases "rv = UA_STATUSCODE_GOOD")
            case False
            have "publishCallbackPass server sub se env =
                    Some (Some sub2,
                          se\<lparr>responseQueue :=
                               pre\<lparr>response := (response pre)
                                      \<lparr>notificationMessage := message2\<rparr>\<rparr> # rest\<rparr>,
                          UA_free env2, False)"
              using c nf Cons npos m True pr False
              by (simp add: publishCallbackPass_def Let_def)
            with p have e: "r = Some sub2" "\<not> again" "env1 = UA_free env2"
                "se1 = se\<lparr>responseQueue :=
                               pre\<lparr>response := (response pre)
                                      \<lparr>notificationMessage := message2\<rparr>\<rparr> # rest\<rparr>"
              by simp_all
            have "sequenceNumber sub2 = sequenceNumber sub" "sent env2 = sent env"
                 "notificationData message2 = []"
              using pf False by simp_all
            then show ?thesis
              using e Cons by (simp add: UA_free_def envelopesInitialised_def)
          next
            case True
            with c p nf Cons npos m \<open>ok\<close> pr have
              cm: "commitPublishResponse server sub2 se env2 pre rest message2 n moreFlag
                 = Some (r, se1, env1, again)"
              by (auto simp: publishCallbackPass_def Let_def)
            have s2: "sequenceNumber sub2 = sequenceNumber sub"
              using pf by auto
            from commit_result[OF cm] pf True npos Cons s2 show ?thesis
              by auto
          qed
        qed
      qed
    qed
  qed
qed

lemma callback_unfold:
  "UA_Subscription_publishCallback server sub se env =
     (case publishCallbackPass server sub se env of
        None \<Rightarrow> None
      | Some (None, se1, env1, moreFlag) \<Rightarrow> Some (None, se1, env1)
      | Some (Some sub1, se1, env1, moreFlag) \<Rightarrow>
          if moreFlag then UA_Subscription_publishCallback server sub1 se1 env1
          else Some (Some sub1, se1, env1))"
  by (rule UA_Subscription_publishCallback.simps)

lemma callback_single:
  "publishCallbackPass server sub se env = Some (r, se1, env1, False) \<Longrightarrow>
     UA_Subscription_publishCallback server sub se env = Some (r, se1, env1)"
  by (subst callback_unfold) (simp split: option.splits)

lemma callback_again:
  "publishCallbackPass server sub se env = Some (Some sub1, se1, env1, True) \<Longrightarrow>
     UA_Subscription_publishCallback server sub se env
       = UA_Subscription_publishCallback server sub1 se1 env1"
  by (subst callback_unfold) simp

lemma expected_append:
  "expectedSequenceNumbers c (xs @ ys) =
     expectedSequenceNumbers c xs
       @ expectedSequenceNumbers (c + of_nat (length (dataBearing xs))) ys"
  by (induction xs arbitrary: c) (auto simp: dataBearing_def add.assoc add.commute)

lemma callback_trace:
  assumes "UA_Subscription_publishCallback server sub se env = Some (r, se1, env1)"
    and "envelopesInitialised se"
  shows "\<exists>new. sent env1 = sent env @ new \<and>
           map sentSequenceNumber new = expectedSequenceNumbers (sequenceNumber sub) new \<and>
           (\<forall>sub1. r = Some sub1 \<longrightarrow>
              sequenceNumber sub1 = sequenceNumber sub + of_nat (length (dataBearing new))) \<and>
           envelopesInitialised se1"
  using assms
proof (induction server sub se env rule: UA_Subscription_publishCallback.induct)
  case (1 server sub se env)
  obtain n moreFlag where c: "countQueuedNotifications sub False = (n, moreFlag)"
    by (cases "countQueuedNotifications sub False")
  from "1.prems"(1) obtain ra sa ea again where
    p: "publishCallbackPass server sub se env = Some (ra, sa, ea, again)"
    by (subst (asm) callback_unfold) (auto split: option.splits)
  from pass_cases[OF c p] show ?case
  proof (elim disjE conjE exE)
    assume a: "\<not> again" "sent ea = sent env"
      "\<forall>sub1. ra = Some sub1 \<longrightarrow> sequenceNumber sub1 = sequenceNumber sub"
      "envelopesInitialised se \<longrightarrow> envelopesInitialised sa"
    from a(1) p have "UA_Subscription_publishCallback server sub se env = Some (ra, sa, ea)"
      by (simp add: callback_single)
    with "1.prems"(1) have "r = ra" "se1 = sa" "env1 = ea" by simp_all
    with a "1.prems"(2) show ?thesis
      by (intro exI[of _ "[]"]) (simp add: dataBearing_def)
  next
    fix pre rest sub1 m
    assume a: "responseQueue se = pre # rest" "sa = se\<lparr>responseQueue := rest\<rparr>"
      "ra = Some sub1" "again = moreFlag" "sent ea = sent env @ [m]"
      "msg_sequenceNumber (notificationMessage (sm_response m)) = sequenceNumber sub + 1"
      "sequenceNumber sub1 = (if n = 0 then sequenceNumber sub else sequenceNumber sub + 1)"
      "n = 0 \<longrightarrow> notificationData (notificationMessage (sm_response m))
                       = notificationData (notificationMessage (response pre))"
      "n \<noteq> 0 \<longrightarrow> notificationData (notificationMessage (sm_response m)) \<noteq> []"
    have ini: "envelopesInitialised sa"
      "notificationData (notificationMessage (response pre)) = []"
      using "1.prems"(2) a(1,2) by (simp_all add: envelopesInitialised_def)
    have d: "isDataBearing m \<longleftrightarrow> n \<noteq> 0"
      using a(8,9) ini(2) by (auto simp: isDataBearing_def)
    have s1: "sequenceNumber sub1 = (if isDataBearing m then sequenceNumber sub + 1
                                     else sequenceNumber sub)"
      using a(7) d by simp
    have sm: "sentSequenceNumber m = sequenceNumber sub + 1"
      using a(6) by (simp add: sentSequenceNumber_def)
    show ?thesis
    proof (cases again)
      case False
      with p a(3) have "UA_Subscription_publishCallback server sub se env = Some (ra, sa, ea)"
        by (simp add: callback_single)
      with "1.prems"(1) have "r = ra" "se1 = sa" "env1 = ea" by simp_all
      with a(3,5) ini(1) s1 sm show ?thesis
        by (intro exI[of _ "[m]"]) (simp add: dataBearing_def)
    next
      case True
      with p a(3) have rec: "UA_Subscription_publishCallback server sub se env
               = UA_Subscription_publishCallback server sub1 sa ea"
        by (simp add: callback_again)
      with "1.prems"(1) have
        "UA_Subscription_publishCallback server sub1 sa ea = Some (r, se1, env1)" by simp
      from "1.IH"[OF p refl a(3) refl refl True this ini(1)]
      obtain new where
        h: "sent env1 = sent ea @ new"
           "map sentSequenceNumber new = expectedSequenceNumbers (sequenceNumber sub1) new"
           "\<forall>s. r = Some s \<longrightarrow>
              sequenceNumber s = sequenceNumber sub1 + of_nat (length (dataBearing new))"
           "envelopesInitialised se1"
        by blast
      show ?thesis
        using h a(5) s1 sm
        by (intro exI[of _ "m # new"]) (auto simp: dataBearing_def add.assoc add.commute)
    qed
  qed
qed

lemmas sample_defs = sampleSubscription_def sampleEnv_def sampleEnvelope_def sampleSession_def
  sampleItem_def sampleMessage_def UA_NotificationMessage_init_def

lemmas engine_defs = publishCallbackPass_def commitPublishResponse_def
  prepareNotificationMessage_def countQueuedNotifications_def UA_malloc_def UA_free_def
  UA_Array_new_def UA_NotificationMessage_deleteMembers_def
  UA_Subscription_addRetransmissionMessage_def UA_Session_deleteSubscription_def Let_def

text \<open>
  C10. With a cap of at least one notification per publish, a count of zero (nothing queued,
  or publishing disabled whatever is queued) comes with the flag \<open>moreNotifications\<close> unset.
  So a pass that counted zero never asks for the re-entry, every response it sends (a
  keep-alive) has \<open>moreNotifications = false\<close>, and the callback is that single pass.
\<close>

theorem keepalive_never_more:
  assumes "1 \<le> notificationsPerPublish sub"
    and "fst (countQueuedNotifications sub False) = 0"
  shows "\<not> snd (countQueuedNotifications sub False) \<and>
         (\<forall>r se1 env1 again.
            publishCallbackPass server sub se env = Some (r, se1, env1, again) \<longrightarrow>
              \<not> again \<and>
              (\<forall>m \<in> set (drop (length (sent env)) (sent env1)).
                 \<not> moreNotifications (sm_response m))) \<and>
         UA_Subscription_publishCallback server sub se env
           = map_option (\<lambda>(r, se1, env1, again). (r, se1, env1))
               (publishCallbackPass server sub se env)"
proof -
  obtain moreFlag where c: "countQueuedNotifications sub False = (0, moreFlag)"
    using assms(2) by (cases "countQueuedNotifications sub False") simp
  from count_zero_no_more[OF assms(1) c] have nm: "\<not> moreFlag" .
  have pass: "\<not> again \<and>
              (\<forall>m \<in> set (drop (length (sent env)) (sent env1)).
                 \<not> moreNotifications (sm_response m))"
    if p: "publishCallbackPass server sub se env = Some (r, se1, env1, again)"
    for r se1 env1 again
    using pass_cases[OF c p] nm by auto
  have cb: "UA_Subscription_publishCallback server sub se env
           = map_option (\<lambda>(r, se1, env1, again). (r, se1, env1))
               (publishCallbackPass server sub se env)"
  proof (cases "publishCallbackPass server sub se env")
    case None
    then show ?thesis by (subst callback_unfold) simp
  next
    case (Some x)
    obtain r se1 env1 again where x: "x = (r, se1, env1, again)" by (cases x)
    with Some pass[of r se1 env1 again] have "\<not> again" by simp
    with Some x show ?thesis by (simp add: callback_single)
  qed
  have "\<not> snd (countQueuedNotifications sub False)"
    using c nm by simp
  moreover have "\<forall>r se1 env1 again.
            publishCallbackPass server sub se env = Some (r, se1, env1, again) \<longrightarrow>
              \<not> again \<and>
              (\<forall>m \<in> set (drop (length (sent env)) (sent env1)).
                 \<not> moreNotifications (sm_response m))"
    using pass by blast
  ultimately show ?thesis using cb by blast
qed

lemma pass_no_channel:
  assumes "channel se = None"
  shows "publishCallbackPass server sub se env
          = Some (Some (if fst (countQueuedNotifications sub False) = 0
                        then sub\<lparr>currentKeepAliveCount := currentKeepAliveCount sub + 1\<rparr>
                        else sub), se, env, False)"
  using assms by (simp add: publishCallbackPass_def Let_def split: prod.splits)

text \<open>
  C7, as amended. On a tick where the session has no secure channel the callback returns with
  the session (and so its response queue) and the environment unchanged, nothing sent, and the
  subscription unchanged but for one field: when no notification was counted, the keep-alive
  counter has been incremented before the channel was looked at. State, lifetime counter and
  sequence number never change.
\<close>

theorem no_channel_tick:
  assumes "channel se = None"
  shows "UA_Subscription_publishCallback server sub se env
           = Some (Some (if fst (countQueuedNotifications sub False) = 0
                         then sub\<lparr>currentKeepAliveCount := currentKeepAliveCount sub + 1\<rparr>
                         else sub), se, env)"
  using pass_no_channel[OF assms] by (rule callback_single)

text \<open>
  C6. A tick that has notifications to send, a channel and a banked publish request, and
  whose preparation meets a failed allocation (the retransmission entry, the extension object,
  the data-change notification or the notification array: the \<open>k\<close>-th request, \<open>k < 4\<close>,
  after \<open>k\<close> successes) returns with the subscription unchanged, nothing sent, the response
  queue still holding the same envelopes, and as many blocks allocated as before: of the
  environment only the allocator's script has advanced. The envelope's notification message
  is left as the failed preparation cleared it, which for an initialised envelope is as it
  was, so that the session is unchanged.
\<close>

theorem allocation_failure_aborts:
  assumes c: "countQueuedNotifications sub False = (n, moreFlag)" and n: "0 < n"
    and ch: "channel se = Some ch"
    and q: "responseQueue se = pre # rest"
    and k: "k < 4"
    and a: "allocOutcomes env = replicate k True @ False # later"
  shows "UA_Subscription_publishCallback server sub se env
           = Some (Some sub,
                   se\<lparr>responseQueue :=
                        pre\<lparr>response := (response pre)
                               \<lparr>notificationMessage :=
                                  scratchMessage k (notificationMessage (response pre))\<rparr>\<rparr>
                        # rest\<rparr>,
                   env\<lparr>allocOutcomes := later\<rparr>) \<and>
         (notificationMessage (response pre) = UA_NotificationMessage_init \<longrightarrow>
            UA_Subscription_publishCallback server sub se env
              = Some (Some sub, se, env\<lparr>allocOutcomes := later\<rparr>))"
proof -
  from k consider "k = 0" | "k = 1" | "k = 2" | "k = 3" by linarith
  then have p: "publishCallbackPass server sub se env
           = Some (Some sub,
                   se\<lparr>responseQueue :=
                        pre\<lparr>response := (response pre)
                               \<lparr>notificationMessage :=
                                  scratchMessage k (notificationMessage (response pre))\<rparr>\<rparr>
                        # rest\<rparr>,
                   env\<lparr>allocOutcomes := later\<rparr>, False)"
  proof cases
    case 1
    with c n ch q a show ?thesis
      by (simp add: publishCallbackPass_def Let_def UA_malloc_def scratchMessage_def)
  next
    case 2
    with c n ch q a show ?thesis
      by (simp add: publishCallbackPass_def Let_def UA_malloc_def scratchMessage_def
            prepareNotificationMessage_def UA_free_def)
  next
    case 3
    with c n ch q a show ?thesis
      by (simp add: publishCallbackPass_def Let_def UA_malloc_def scratchMessage_def
            prepareNotificationMessage_def UA_free_def numeral_2_eq_2
            UA_NotificationMessage_deleteMembers_def blocksMessage_def)
  next
    case 4
    with c n ch q a show ?thesis
      by (simp add: publishCallbackPass_def Let_def UA_malloc_def scratchMessage_def
            prepareNotificationMessage_def UA_free_def numeral_3_eq_3 UA_Array_new_def
            UA_NotificationMessage_deleteMembers_def blocksMessage_def)
  qed
  have cb: "UA_Subscription_publishCallback server sub se env
           = Some (Some sub,
                   se\<lparr>responseQueue :=
                        pre\<lparr>response := (response pre)
                               \<lparr>notificationMessage :=
                                  scratchMessage k (notificationMessage (response pre))\<rparr>\<rparr>
                        # rest\<rparr>,
                   env\<lparr>allocOutcomes := later\<rparr>)"
    using p by (rule callback_single)
  have "scratchMessage k UA_NotificationMessage_init = UA_NotificationMessage_init"
    by (simp add: scratchMessage_def UA_NotificationMessage_init_def)
  then have "notificationMessage (response pre) = UA_NotificationMessage_init \<longrightarrow>
       se\<lparr>responseQueue :=
            pre\<lparr>response := (response pre)
                   \<lparr>notificationMessage :=
                      scratchMessage k (notificationMessage (response pre))\<rparr>\<rparr>
            # rest\<rparr> = se"
    using q by simp
  with cb show ?thesis by simp
qed

section \<open>Sequence numbers along a run\<close>

lemma expected_nth:
  "j < length ms \<Longrightarrow>
     expectedSequenceNumbers c ms ! j = c + of_nat (length (dataBearing (take j ms))) + 1"
proof (induction ms arbitrary: c j)
  case Nil
  then show ?case by simp
next
  case (Cons m ms)
  show ?case
  proof (cases j)
    case 0
    then show ?thesis by (simp add: dataBearing_def)
  next
    case (Suc i)
    with Cons.prems have "i < length ms" by simp
    from Cons.IH[OF this] Suc show ?thesis
      by (simp add: dataBearing_def add.assoc add.commute add.left_commute)
  qed
qed

lemma expected_dataBearing:
  "map sentSequenceNumber ms = expectedSequenceNumbers c ms \<Longrightarrow>
     i < length (dataBearing ms) \<Longrightarrow>
     sentSequenceNumber (dataBearing ms ! i) = c + of_nat i + 1"
proof (induction ms arbitrary: c i)
  case Nil
  then show ?case by (simp add: dataBearing_def)
next
  case (Cons m ms)
  show ?case
  proof (cases "isDataBearing m")
    case False
    with Cons.prems have
      "map sentSequenceNumber ms = expectedSequenceNumbers c ms" "i < length (dataBearing ms)"
      by (simp_all add: dataBearing_def)
    from Cons.IH[OF this] False show ?thesis by (simp add: dataBearing_def)
  next
    case True
    with Cons.prems have
      t: "map sentSequenceNumber ms = expectedSequenceNumbers (c + 1) ms"
         "sentSequenceNumber m = c + 1" "dataBearing (m # ms) = m # dataBearing ms"
      by (simp_all add: dataBearing_def)
    show ?thesis
    proof (cases i)
      case 0
      with t show ?thesis by simp
    next
      case (Suc k)
      with Cons.prems True have "k < length (dataBearing ms)" by (simp add: dataBearing_def)
      from Cons.IH[OF t(1) this] t(3) Suc show ?thesis
        by (simp add: add.assoc add.commute add.left_commute)
    qed
  qed
qed

lemma run_trace:
  assumes "engineRun server start st" and "start = (sub0, se0, env0)"
    and "envelopesInitialised se0"
  shows "envelopesInitialised (fst (snd st)) \<and>
         (\<exists>new. sent (snd (snd st)) = sent env0 @ new \<and>
            map sentSequenceNumber new = expectedSequenceNumbers (sequenceNumber sub0) new \<and>
            (\<forall>sub. fst st = Some sub \<longrightarrow>
               sequenceNumber sub = sequenceNumber sub0 + of_nat (length (dataBearing new))))"
  using assms
proof (induction rule: engineRun.induct)
  case (started sub se env)
  then show ?case by (intro conjI exI[of _ "[]"]) (simp_all add: dataBearing_def)
next
  case (tick sub se env st)
  from tick.IH[OF tick.prems] obtain new where
    h: "envelopesInitialised se" "sent env = sent env0 @ new"
       "map sentSequenceNumber new = expectedSequenceNumbers (sequenceNumber sub0) new"
       "sequenceNumber sub = sequenceNumber sub0 + of_nat (length (dataBearing new))"
    by auto
  obtain r se1 env1 where st: "st = (r, se1, env1)" by (cases st)
  from callback_trace[OF tick.hyps(2)[unfolded st] h(1)] obtain more where
    g: "sent env1 = sent env @ more"
       "map sentSequenceNumber more = expectedSequenceNumbers (sequenceNumber sub) more"
       "\<forall>s. r = Some s \<longrightarrow>
          sequenceNumber s = sequenceNumber sub + of_nat (length (dataBearing more))"
       "envelopesInitialised se1"
    by blast
  show ?case
    using h g st
    by (intro conjI exI[of _ "new @ more"])
       (auto simp: expected_append dataBearing_def add.assoc)
next
  case (environment sub se env sub1 env1 se1)
  from environment.IH[OF environment.prems] environment.hyps(2,3,4) show ?case
    by auto
qed

text \<open>
  C1. Along any run of a subscription from a start state with sequence-number counter \<open>c\<close>,
  the responses sent are such that consecutive data-bearing responses carry sequence numbers
  that differ by exactly 1 (in 32-bit arithmetic); every response, keep-alives included,
  carries \<open>c\<close> plus the number of data-bearing responses sent before it plus 1, so a keep-alive
  previews the next number; and the counter ends at \<open>c\<close> plus the number of data-bearing
  responses, so keep-alives do not advance it.
\<close>

theorem sequence_numbers_consecutive:
  assumes "engineRun server (sub0, se0, env0) (r, se, env)"
    and "envelopesInitialised se0"
  shows "\<exists>new. sent env = sent env0 @ new \<and>
           (\<forall>i. Suc i < length (dataBearing new) \<longrightarrow>
              sentSequenceNumber (dataBearing new ! Suc i)
                = sentSequenceNumber (dataBearing new ! i) + 1) \<and>
           (\<forall>j < length new.
              sentSequenceNumber (new ! j)
                = sequenceNumber sub0 + of_nat (length (dataBearing (take j new))) + 1) \<and>
           (\<forall>sub. r = Some sub \<longrightarrow>
              sequenceNumber sub = sequenceNumber sub0 + of_nat (length (dataBearing new)))"
proof -
  from run_trace[OF assms(1) refl assms(2)] obtain new where
    h: "sent env = sent env0 @ new"
       "map sentSequenceNumber new = expectedSequenceNumbers (sequenceNumber sub0) new"
       "\<forall>sub. r = Some sub \<longrightarrow>
          sequenceNumber sub = sequenceNumber sub0 + of_nat (length (dataBearing new))"
    by auto
  have a: "sentSequenceNumber (dataBearing new ! Suc i)
             = sentSequenceNumber (dataBearing new ! i) + 1"
    if "Suc i < length (dataBearing new)" for i
    using expected_dataBearing[OF h(2) that] expected_dataBearing[OF h(2), of i] that
    by (simp add: add.assoc add.commute add.left_commute)
  have b: "sentSequenceNumber (new ! j)
             = sequenceNumber sub0 + of_nat (length (dataBearing (take j new))) + 1"
    if "j < length new" for j
  proof -
    have "sentSequenceNumber (new ! j) = map sentSequenceNumber new ! j"
      using that by simp
    also have "\<dots> = expectedSequenceNumbers (sequenceNumber sub0) new ! j"
      by (simp only: h(2))
    finally show ?thesis using expected_nth[OF that] by simp
  qed
  from h(1) h(3) a b show ?thesis by blast
qed

section \<open>Instances of the pass theorems\<close>

theorem keepalive_never_more_witness:
  "1 \<le> notificationsPerPublish
          (sampleSubscription\<lparr>publishingEnabled := False, maxKeepAliveCount := 1,
                              monitoredItems := [sampleItem [''A'', ''B'', ''C'']]\<rparr>) \<and>
   countQueuedNotifications
     (sampleSubscription\<lparr>publishingEnabled := False, maxKeepAliveCount := 1,
                         monitoredItems := [sampleItem [''A'', ''B'', ''C'']]\<rparr>) False
     = (0, False) \<and>
   map (\<lambda>m. moreNotifications (sm_response m))
     (sent (snd (snd (the (UA_Subscription_publishCallback \<lparr>maxRetransmissionQueueSize = 0\<rparr>
        (sampleSubscription\<lparr>publishingEnabled := False, maxKeepAliveCount := 1,
                            monitoredItems := [sampleItem [''A'', ''B'', ''C'']]\<rparr>)
        (sampleSession [sampleEnvelope 10]) sampleEnv)))))
     = [False]"
proof -
  let ?sub = "sampleSubscription\<lparr>publishingEnabled := False, maxKeepAliveCount := 1,
                              monitoredItems := [sampleItem [''A'', ''B'', ''C'']]\<rparr>"
  have a: "1 \<le> notificationsPerPublish ?sub"
    by (simp add: sample_defs)
  have b: "countQueuedNotifications ?sub False = (0, False)"
    by (simp add: sample_defs countQueuedNotifications_def)
  then have b': "fst (countQueuedNotifications ?sub False) = 0" by simp
  have "UA_Subscription_publishCallback \<lparr>maxRetransmissionQueueSize = 0\<rparr> ?sub
          (sampleSession [sampleEnvelope 10]) sampleEnv
        = map_option (\<lambda>(r, se1, env1, again). (r, se1, env1))
            (publishCallbackPass \<lparr>maxRetransmissionQueueSize = 0\<rparr> ?sub
               (sampleSession [sampleEnvelope 10]) sampleEnv)"
    using keepalive_never_more[OF a b'] by blast
  then show ?thesis
    using a b by (simp add: sample_defs engine_defs)
qed

theorem no_channel_tick_witness:
  "channel ((sampleSession [sampleEnvelope 10])\<lparr>channel := None\<rparr>) = None \<and>
   UA_Subscription_publishCallback \<lparr>maxRetransmissionQueueSize = 0\<rparr>
     (sampleSubscription\<lparr>monitoredItems := [sampleItem [''A'']]\<rparr>)
     ((sampleSession [sampleEnvelope 10])\<lparr>channel := None\<rparr>) sampleEnv
   = Some (Some (sampleSubscription\<lparr>monitoredItems := [sampleItem [''A'']]\<rparr>),
           (sampleSession [sampleEnvelope 10])\<lparr>channel := None\<rparr>, sampleEnv)"
proof -
  have a: "channel ((sampleSession [sampleEnvelope 10])\<lparr>channel := None\<rparr>) = None"
    by simp
  from no_channel_tick[OF a, of "\<lparr>maxRetransmissionQueueSize = 0\<rparr>"
         "sampleSubscription\<lparr>monitoredItems := [sampleItem [''A'']]\<rparr>" sampleEnv]
  show ?thesis
    by (simp add: sample_defs countQueuedNotifications_def)
qed

theorem no_channel_keepalive_counterexample:
  "UA_Subscription_publishCallback \<lparr>maxRetransmissionQueueSize = 0\<rparr>
     (sampleSubscription\<lparr>maxKeepAliveCount := 3\<rparr>)
     ((sampleSession [sampleEnvelope 10])\<lparr>channel := None\<rparr>) sampleEnv
   = Some (Some (sampleSubscription\<lparr>maxKeepAliveCount := 3, currentKeepAliveCount := 1\<rparr>),
           (sampleSession [sampleEnvelope 10])\<lparr>channel := None\<rparr>, sampleEnv) \<and>
   currentKeepAliveCount (sampleSubscription\<lparr>maxKeepAliveCount := 3\<rparr>) = 0"
  by (subst callback_unfold) (simp add: sample_defs engine_defs)

theorem allocation_failure_aborts_witness:
  "UA_Subscription_publishCallback \<lparr>maxRetransmissionQueueSize = 0\<rparr>
     (sampleSubscription\<lparr>monitoredItems := [sampleItem [''A'']]\<rparr>)
     (sampleSession [sampleEnvelope 10]) (sampleEnv\<lparr>allocOutcomes := [True, True, False]\<rparr>)
   = Some (Some (sampleSubscription\<lparr>monitoredItems := [sampleItem [''A'']]\<rparr>),
           sampleSession [sampleEnvelope 10], sampleEnv)"
proof -
  let ?sub = "sampleSubscription\<lparr>monitoredItems := [sampleItem [''A'']]\<rparr>"
  have c: "countQueuedNotifications ?sub False = (1, False)"
    by (simp add: sample_defs countQueuedNotifications_def)
  have ch: "channel (sampleSession [sampleEnvelope 10]) = Some 0"
    by (simp add: sample_defs)
  have q: "responseQueue (sampleSession [sampleEnvelope 10]) = sampleEnvelope 10 # []"
    by (simp add: sample_defs)
  have a: "allocOutcomes (sampleEnv\<lparr>allocOutcomes := [True, True, False]\<rparr>)
             = replicate 2 True @ False # []"
    by (simp add: numeral_2_eq_2)
  have i: "notificationMessage (response (sampleEnvelope 10)) = UA_NotificationMessage_init"
    by (simp add: sample_defs)
  from allocation_failure_aborts[OF c _ ch q _ a, of "\<lparr>maxRetransmissionQueueSize = 0\<rparr>"] i
  show ?thesis by (simp add: sample_defs scratchMessage_def)
qed

section \<open>The boundary scenarios\<close>

lemma tick_Some:
  "tick server (Some (Some sub, se, env)) = UA_Subscription_publishCallback server sub se env"
  by (simp add: tick_def)

lemma pass_silent:
  assumes "countQueuedNotifications sub False = (0, moreFlag)"
    and "currentKeepAliveCount sub + 1 < maxKeepAliveCount sub"
  shows "UA_Subscription_publishCallback server sub se env
           = Some (Some (sub\<lparr>currentKeepAliveCount := currentKeepAliveCount sub + 1\<rparr>), se, env)"
  using assms by (intro callback_single) (simp add: publishCallbackPass_def)

lemma count_no_items:
  "monitoredItems sub = [] \<Longrightarrow> countQueuedNotifications sub False = (0, False)"
  by (simp add: countQueuedNotifications_def)

text \<open>
  C5. A subscription with \<open>max_keep_alive_count = 3\<close>, keep-alive counter 0, sequence-number
  counter 0 and no monitored items, on a session with a channel and a banked, initialised
  publish request: ticks 1 and 2 send nothing and leave everything but the keep-alive counter
  (1, then 2) as it was; tick 3 takes the request off the queue and sends one response, for
  that request, with sequence number 1, \<open>moreNotifications = false\<close> and no notification
  data, after which the sequence-number counter is still 0, the keep-alive counter is reset
  and nothing has been added to the retransmission queue.
\<close>

theorem keepalive_scenario:
  assumes "maxKeepAliveCount sub = 3" and "currentKeepAliveCount sub = 0"
    and "monitoredItems sub = []" and "sequenceNumber sub = 0"
    and "channel se = Some ch" and "responseQueue se = pre # rest"
    and "notificationData (notificationMessage (response pre)) = []"
  shows "tick server (Some (Some sub, se, env))
           = Some (Some (sub\<lparr>currentKeepAliveCount := 1\<rparr>), se, env) \<and>
         tick server (tick server (Some (Some sub, se, env)))
           = Some (Some (sub\<lparr>currentKeepAliveCount := 2\<rparr>), se, env) \<and>
         (\<exists>sub3 env3.
            tick server (tick server (tick server (Some (Some sub, se, env))))
              = Some (Some sub3, se\<lparr>responseQueue := rest\<rparr>, env3) \<and>
            map responseSummary (sent env3)
              = map responseSummary (sent env) @ [(requestId pre, 1, False, [])] \<and>
            sequenceNumber sub3 = 0 \<and> currentKeepAliveCount sub3 = 0 \<and>
            retransmissionQueue sub3 = retransmissionQueue sub)"
proof -
  have t1: "tick server (Some (Some sub, se, env))
           = Some (Some (sub\<lparr>currentKeepAliveCount := 1\<rparr>), se, env)"
    unfolding tick_Some
    using pass_silent[OF count_no_items[OF assms(3)], of server se env] assms(1,2) by simp
  have t2: "tick server (Some (Some (sub\<lparr>currentKeepAliveCount := 1\<rparr>), se, env))
           = Some (Some (sub\<lparr>currentKeepAliveCount := 2\<rparr>), se, env)"
    unfolding tick_Some
    using pass_silent[of "sub\<lparr>currentKeepAliveCount := 1\<rparr>" False server se env] assms(1,3)
    by (simp add: count_no_items)
  have p3: "publishCallbackPass server (sub\<lparr>currentKeepAliveCount := 2\<rparr>) se env
          = Some (Some (sub\<lparr>currentKeepAliveCount := 0,
                             state := UA_SUBSCRIPTIONSTATE_NORMAL,
                             currentLifetimeCount := 0\<rparr>),
                  se\<lparr>responseQueue := rest\<rparr>,
                  env\<lparr>sent := sent env @
                     [\<lparr>sm_channel = Some ch, sm_requestId = requestId pre,
                       sm_response =
                         (if 0 < retransmissionQueueSize sub
                          then (response pre)
                                 \<lparr>timestamp := now env, subscriptionId := subscriptionID sub,
                                  moreNotifications := False,
                                  notificationMessage := (notificationMessage (response pre))
                                     \<lparr>publishTime := now env, msg_sequenceNumber := 1\<rparr>,
                                  availableSequenceNumbers :=
                                     take (unat (retransmissionQueueSize sub))
                                       (map msg_sequenceNumber (retransmissionQueue sub))\<rparr>
                          else (response pre)
                                 \<lparr>timestamp := now env, subscriptionId := subscriptionID sub,
                                  moreNotifications := False,
                                  notificationMessage := (notificationMessage (response pre))
                                     \<lparr>publishTime := now env, msg_sequenceNumber := 1\<rparr>\<rparr>)\<rparr>]\<rparr>,
                  False)"
    using assms
    by (simp add: publishCallbackPass_def commitPublishResponse_def Let_def count_no_items)
  have t3: "tick server (tick server (tick server (Some (Some sub, se, env))))
           = UA_Subscription_publishCallback server (sub\<lparr>currentKeepAliveCount := 2\<rparr>) se env"
    by (subst t1, subst t2, rule tick_Some)
  have t12: "tick server (tick server (Some (Some sub, se, env)))
           = Some (Some (sub\<lparr>currentKeepAliveCount := 2\<rparr>), se, env)"
    by (subst t1) (rule t2)
  have "\<exists>sub3 env3.
            tick server (tick server (tick server (Some (Some sub, se, env))))
              = Some (Some sub3, se\<lparr>responseQueue := rest\<rparr>, env3) \<and>
            map responseSummary (sent env3)
              = map responseSummary (sent env) @ [(requestId pre, 1, False, [])] \<and>
            sequenceNumber sub3 = 0 \<and> currentKeepAliveCount sub3 = 0 \<and>
            retransmissionQueue sub3 = retransmissionQueue sub"
    unfolding t3 callback_single[OF p3]
    using assms(4,7)
    by (simp add: responseSummary_def sentSequenceNumber_def)
  with t1 t12 show ?thesis by (intro conjI)
qed

lemma count_frame:
  "countQueuedNotifications (sub\<lparr>state := st\<rparr>) flag = countQueuedNotifications sub flag"
  "countQueuedNotifications (sub\<lparr>currentLifetimeCount := lc\<rparr>) flag
     = countQueuedNotifications sub flag"
  by (simp_all add: countQueuedNotifications_def)

lemma pass_late_first:
  assumes "countQueuedNotifications sub False = (n, moreFlag)" and "0 < n"
    and "channel se = Some ch" and "responseQueue se = []"
    and "state sub \<noteq> UA_SUBSCRIPTIONSTATE_LATE"
  shows "UA_Subscription_publishCallback server sub se env
           = Some (Some (sub\<lparr>state := UA_SUBSCRIPTIONSTATE_LATE\<rparr>), se, env)"
  using assms by (intro callback_single) (simp add: publishCallbackPass_def)

lemma pass_late_count:
  assumes "countQueuedNotifications sub False = (n, moreFlag)" and "0 < n"
    and "channel se = Some ch" and "responseQueue se = []"
    and "state sub = UA_SUBSCRIPTIONSTATE_LATE"
    and "\<not> lifeTimeCount sub < currentLifetimeCount sub + 1"
  shows "UA_Subscription_publishCallback server sub se env
           = Some (Some (sub\<lparr>currentLifetimeCount := currentLifetimeCount sub + 1\<rparr>), se, env)"
  using assms by (intro callback_single) (simp add: publishCallbackPass_def Let_def)

lemma pass_late_delete:
  assumes "countQueuedNotifications sub False = (n, moreFlag)" and "0 < n"
    and "channel se = Some ch" and "responseQueue se = []"
    and "state sub = UA_SUBSCRIPTIONSTATE_LATE"
    and "lifeTimeCount sub < currentLifetimeCount sub + 1"
  shows "UA_Subscription_publishCallback server sub se env
           = Some (None,
                   se\<lparr>serverSubscriptions :=
                        removeAll (subscriptionID sub) (serverSubscriptions se)\<rparr>,
                   env\<lparr>allocated := allocated env - blocksEntries (retransmissionQueue sub)\<rparr>)"
  using assms
  by (intro callback_single)
     (simp add: publishCallbackPass_def Let_def UA_Session_deleteSubscription_def)

lemma lifetime_ticks:
  assumes c: "countQueuedNotifications sub False = (n, moreFlag)" and n: "0 < n"
    and ch: "channel se = Some ch" and q: "responseQueue se = []"
    and st: "state sub = UA_SUBSCRIPTIONSTATE_NORMAL"
    and lt: "lifeTimeCount sub = 2" and lc: "currentLifetimeCount sub = 0"
  shows "tick server (Some (Some sub, se, env))
           = Some (Some (sub\<lparr>state := UA_SUBSCRIPTIONSTATE_LATE\<rparr>), se, env)"
    and "tick server (tick server (Some (Some sub, se, env)))
           = Some (Some (sub\<lparr>state := UA_SUBSCRIPTIONSTATE_LATE,
                             currentLifetimeCount := 1\<rparr>), se, env)"
    and "tick server (tick server (tick server (Some (Some sub, se, env))))
           = Some (Some (sub\<lparr>state := UA_SUBSCRIPTIONSTATE_LATE,
                             currentLifetimeCount := 2\<rparr>), se, env)"
    and "tick server (tick server (tick server (tick server (Some (Some sub, se, env)))))
           = Some (None,
                   se\<lparr>serverSubscriptions :=
                        removeAll (subscriptionID sub) (serverSubscriptions se)\<rparr>,
                   env\<lparr>allocated := allocated env - blocksEntries (retransmissionQueue sub)\<rparr>)"
proof -
  let ?s1 = "sub\<lparr>state := UA_SUBSCRIPTIONSTATE_LATE\<rparr>"
  let ?s2 = "sub\<lparr>state := UA_SUBSCRIPTIONSTATE_LATE, currentLifetimeCount := 1\<rparr>"
  let ?s3 = "sub\<lparr>state := UA_SUBSCRIPTIONSTATE_LATE, currentLifetimeCount := 2\<rparr>"
  show t1: "tick server (Some (Some sub, se, env)) = Some (Some ?s1, se, env)"
    unfolding tick_Some using st by (intro pass_late_first[OF c n ch q]) simp
  have c1: "countQueuedNotifications ?s1 False = (n, moreFlag)"
    using c by (simp add: count_frame)
  have u2: "tick server (Some (Some ?s1, se, env)) = Some (Some ?s2, se, env)"
    unfolding tick_Some
    using pass_late_count[OF c1 n ch q, of server env] lt lc by simp
  show t2: "tick server (tick server (Some (Some sub, se, env))) = Some (Some ?s2, se, env)"
    by (subst t1) (rule u2)
  have c2: "countQueuedNotifications ?s2 False = (n, moreFlag)"
    using c by (simp add: count_frame)
  have u3: "tick server (Some (Some ?s2, se, env)) = Some (Some ?s3, se, env)"
    unfolding tick_Some
    using pass_late_count[OF c2 n ch q, of server env] lt by simp
  show t3: "tick server (tick server (tick server (Some (Some sub, se, env))))
              = Some (Some ?s3, se, env)"
    by (subst t2) (rule u3)
  have c3: "countQueuedNotifications ?s3 False = (n, moreFlag)"
    using c by (simp add: count_frame)
  have u4: "tick server (Some (Some ?s3, se, env))
          = Some (None,
                   se\<lparr>serverSubscriptions :=
                        removeAll (subscriptionID sub) (serverSubscriptions se)\<rparr>,
                   env\<lparr>allocated := allocated env - blocksEntries (retransmissionQueue sub)\<rparr>)"
    unfolding tick_Some
    using pass_late_delete[OF c3 n ch q, of server env] lt by simp
  show "tick server (tick server (tick server (tick server (Some (Some sub, se, env)))))
           = Some (None,
                   se\<lparr>serverSubscriptions :=
                        removeAll (subscriptionID sub) (serverSubscriptions se)\<rparr>,
                   env\<lparr>allocated := allocated env - blocksEntries (retransmissionQueue sub)\<rparr>)"
    by (subst t3) (rule u4)
qed

text \<open>
  C2, as amended. With \<open>lifetime_count = 2\<close>, lifetime counter 0, state \<open>NORMAL\<close>,
  notifications counted, a channel and an empty response queue on every tick: tick 1 only
  moves the state to \<open>LATE\<close>; tick 2 sets the lifetime counter to 1; tick 3 sets it to 2,
  which does not exceed 2 under the strict comparison, so the subscription stays; tick 4 sets
  it to 3 and the subscription is deleted through the session.
\<close>

theorem lifetime_expiry_scenario:
  assumes "countQueuedNotifications sub False = (n, moreFlag)" and "0 < n"
    and "channel se = Some ch" and "responseQueue se = []"
    and "state sub = UA_SUBSCRIPTIONSTATE_NORMAL"
    and "lifeTimeCount sub = 2" and "currentLifetimeCount sub = 0"
  shows "tick server (Some (Some sub, se, env))
           = Some (Some (sub\<lparr>state := UA_SUBSCRIPTIONSTATE_LATE\<rparr>), se, env) \<and>
         tick server (tick server (Some (Some sub, se, env)))
           = Some (Some (sub\<lparr>state := UA_SUBSCRIPTIONSTATE_LATE,
                             currentLifetimeCount := 1\<rparr>), se, env) \<and>
         tick server (tick server (tick server (Some (Some sub, se, env))))
           = Some (Some (sub\<lparr>state := UA_SUBSCRIPTIONSTATE_LATE,
                             currentLifetimeCount := 2\<rparr>), se, env) \<and>
         tick server (tick server (tick server (tick server (Some (Some sub, se, env)))))
           = Some (None,
                   se\<lparr>serverSubscriptions :=
                        removeAll (subscriptionID sub) (serverSubscriptions se)\<rparr>,
                   env\<lparr>allocated := allocated env - blocksEntries (retransmissionQueue sub)\<rparr>)"
  using lifetime_ticks[OF assms] by (intro conjI)

lemma answerPublishRequests_all:
  "answerPublishRequests ch q env =
     ([], env\<lparr>sent := sent env @
                map (\<lambda>pre. \<lparr>sm_channel = ch, sm_requestId = requestId pre,
                            sm_response = (response pre)
                              \<lparr>serviceResult := UA_STATUSCODE_BADNOSUBSCRIPTION,
                               timestamp := now env\<rparr>\<rparr>) q,
              allocated := allocated env
                - sum_list (map (\<lambda>pre. blocksMessage (notificationMessage (response pre))) q)\<rparr>)"
proof (induction q arbitrary: env)
  case Nil
  then show ?case by simp
next
  case (Cons pre q)
  show ?case
    by (simp add: Cons.IH Let_def UA_NotificationMessage_deleteMembers_def algebra_simps)
qed

text \<open>
  C9. For a session without subscriptions the call hands one response per banked publish
  request to the channel, in queue order, each with \<open>serviceResult = BadNoSubscription\<close>, the
  current time and the request's identifier, releases what each envelope holds, and leaves
  the response queue empty. Calling again on the resulting session changes nothing, and
  neither does a call with the null session.
\<close>

theorem answer_no_subscription:
  assumes "serverSubscriptions se = []"
  shows "UA_Subscription_answerPublishRequestsNoSubscription server (Some se) env
           = (Some (se\<lparr>responseQueue := []\<rparr>),
              env\<lparr>sent := sent env @
                     map (\<lambda>pre. \<lparr>sm_channel = channel se, sm_requestId = requestId pre,
                                 sm_response = (response pre)
                                   \<lparr>serviceResult := UA_STATUSCODE_BADNOSUBSCRIPTION,
                                    timestamp := now env\<rparr>\<rparr>) (responseQueue se),
                  allocated := allocated env
                    - sum_list (map (\<lambda>pre. blocksMessage (notificationMessage (response pre)))
                        (responseQueue se))\<rparr>) \<and>
         (\<forall>env1. UA_Subscription_answerPublishRequestsNoSubscription server
                   (Some (se\<lparr>responseQueue := []\<rparr>)) env1
                 = (Some (se\<lparr>responseQueue := []\<rparr>), env1)) \<and>
         UA_Subscription_answerPublishRequestsNoSubscription server None env = (None, env)"
  using assms
  by (simp add: UA_Subscription_answerPublishRequestsNoSubscription_def
        answerPublishRequests_all)

theorem answer_no_subscription_witness:
  "serverSubscriptions
     ((sampleSession [sampleEnvelope 10, sampleEnvelope 11])\<lparr>serverSubscriptions := []\<rparr>) = [] \<and>
   map (\<lambda>m. (sm_requestId m, serviceResult (sm_response m)))
     (sent (snd (UA_Subscription_answerPublishRequestsNoSubscription
        \<lparr>maxRetransmissionQueueSize = 0\<rparr>
        (Some ((sampleSession [sampleEnvelope 10, sampleEnvelope 11])
                 \<lparr>serverSubscriptions := []\<rparr>)) sampleEnv)))
     = [(10, UA_STATUSCODE_BADNOSUBSCRIPTION), (11, UA_STATUSCODE_BADNOSUBSCRIPTION)] \<and>
   map_option responseQueue
     (fst (UA_Subscription_answerPublishRequestsNoSubscription
        \<lparr>maxRetransmissionQueueSize = 0\<rparr>
        (Some ((sampleSession [sampleEnvelope 10, sampleEnvelope 11])
                 \<lparr>serverSubscriptions := []\<rparr>)) sampleEnv)) = Some []"
proof -
  have a: "serverSubscriptions
     ((sampleSession [sampleEnvelope 10, sampleEnvelope 11])\<lparr>serverSubscriptions := []\<rparr>) = []"
    by simp
  from answer_no_subscription[OF a, of "\<lparr>maxRetransmissionQueueSize = 0\<rparr>" sampleEnv]
  show ?thesis by (simp add: sample_defs)
qed

text \<open>
  C3. A subscription with two notifications per publish, sequence-number counter 0, an empty
  retransmission queue and one monitored item holding the values \<open>a, b, c, d, e\<close>, on a session
  with a channel, with an allocator that does not fail. With one publish request banked, the
  tick sends one response, for that request, holding exactly \<open>a, b\<close>, with
  \<open>moreNotifications = true\<close> and sequence number 1, and leaves \<open>c, d, e\<close> queued in order.
  With two requests banked, the tick re-enters and sends a second response, for the second
  request, holding \<open>c, d\<close>, with sequence number 2 and \<open>moreNotifications = true\<close>, leaving \<open>e\<close>.
\<close>

theorem overflow_scenario:
  assumes "notificationsPerPublish sub = 2" and "publishingEnabled sub"
    and "monitoredItems sub = [mon]" and "queue mon = [a, b, c, d, e]"
    and "sequenceNumber sub = 0"
    and "retransmissionQueue sub = []" and "retransmissionQueueSize sub = 0"
    and "channel se = Some ch" and "allocOutcomes env = []"
  shows "(responseQueue se = [pre1] \<longrightarrow>
            (\<exists>sub1 env1.
               UA_Subscription_publishCallback server sub se env
                 = Some (Some sub1, se\<lparr>responseQueue := []\<rparr>, env1) \<and>
               map responseSummary (sent env1)
                 = map responseSummary (sent env) @
                   [(requestId pre1, 1, True,
                     [UA_EXTENSIONOBJECT_DECODED [notificationOf a, notificationOf b]])] \<and>
               map queue (monitoredItems sub1) = [[c, d, e]])) \<and>
         (responseQueue se = [pre1, pre2] \<longrightarrow>
            (\<exists>sub1 env1.
               UA_Subscription_publishCallback server sub se env
                 = Some (Some sub1, se\<lparr>responseQueue := []\<rparr>, env1) \<and>
               map responseSummary (sent env1)
                 = map responseSummary (sent env) @
                   [(requestId pre1, 1, True,
                     [UA_EXTENSIONOBJECT_DECODED [notificationOf a, notificationOf b]]),
                    (requestId pre2, 2, True,
                     [UA_EXTENSIONOBJECT_DECODED [notificationOf c, notificationOf d]])] \<and>
               map queue (monitoredItems sub1) = [[e]]))"
proof (intro conjI impI)
  assume q: "responseQueue se = [pre1]"
  show "\<exists>sub1 env1.
               UA_Subscription_publishCallback server sub se env
                 = Some (Some sub1, se\<lparr>responseQueue := []\<rparr>, env1) \<and>
               map responseSummary (sent env1)
                 = map responseSummary (sent env) @
                   [(requestId pre1, 1, True,
                     [UA_EXTENSIONOBJECT_DECODED [notificationOf a, notificationOf b]])] \<and>
               map queue (monitoredItems sub1) = [[c, d, e]]"
    using assms q
    apply (subst callback_unfold)
    apply (simp add: engine_defs word_gt_0)
    apply (subst callback_unfold)
    apply (simp add: engine_defs word_gt_0 responseSummary_def sentSequenceNumber_def
             notificationOf_def)
    done
next
  assume q: "responseQueue se = [pre1, pre2]"
  show "\<exists>sub1 env1.
               UA_Subscription_publishCallback server sub se env
                 = Some (Some sub1, se\<lparr>responseQueue := []\<rparr>, env1) \<and>
               map responseSummary (sent env1)
                 = map responseSummary (sent env) @
                   [(requestId pre1, 1, True,
                     [UA_EXTENSIONOBJECT_DECODED [notificationOf a, notificationOf b]]),
                    (requestId pre2, 2, True,
                     [UA_EXTENSIONOBJECT_DECODED [notificationOf c, notificationOf d]])] \<and>
               map queue (monitoredItems sub1) = [[e]]"
  proof -
    consider "maxRetransmissionQueueSize server = 0" | "maxRetransmissionQueueSize server = 1"
      | "1 < maxRetransmissionQueueSize server"
      using linorder_less_linear[of "maxRetransmissionQueueSize server" 1]
      by (auto simp: word_less_1)
    then show ?thesis
    proof cases
      case 1
      with assms q show ?thesis
        apply (subst callback_unfold)
        apply (simp add: engine_defs)
        apply (subst callback_unfold)
        apply (simp add: engine_defs)
        apply (subst callback_unfold)
        apply (simp add: engine_defs responseSummary_def sentSequenceNumber_def
                 notificationOf_def)
        done
    next
      case 2
      with assms q show ?thesis
        apply (subst callback_unfold)
        apply (simp add: engine_defs)
        apply (subst callback_unfold)
        apply (simp add: engine_defs)
        apply (subst callback_unfold)
        apply (simp add: engine_defs responseSummary_def sentSequenceNumber_def
                 notificationOf_def)
        done
    next
      case 3
      then have "0 < maxRetransmissionQueueSize server"
          "\<not> maxRetransmissionQueueSize server \<le> 1"
          "\<not> maxRetransmissionQueueSize server \<le> 0"
          "maxRetransmissionQueueSize server \<noteq> 0"
        by (auto simp: word_gt_0)
      with assms q show ?thesis
        apply (subst callback_unfold)
        apply (simp add: engine_defs)
        apply (subst callback_unfold)
        apply (simp add: engine_defs)
        apply (subst callback_unfold)
        apply (simp add: engine_defs responseSummary_def sentSequenceNumber_def
                 notificationOf_def)
        done
    qed
  qed
qed

section \<open>Instances of the scenarios\<close>

theorem keepalive_scenario_witness:
  "\<exists>sub3 env3.
     tick \<lparr>maxRetransmissionQueueSize = 0\<rparr>
       (tick \<lparr>maxRetransmissionQueueSize = 0\<rparr>
          (tick \<lparr>maxRetransmissionQueueSize = 0\<rparr>
             (Some (Some (sampleSubscription\<lparr>maxKeepAliveCount := 3\<rparr>),
                    sampleSession [sampleEnvelope 10], sampleEnv))))
       = Some (Some sub3, (sampleSession [sampleEnvelope 10])\<lparr>responseQueue := []\<rparr>, env3) \<and>
     map responseSummary (sent env3) = [(10, 1, False, [])] \<and>
     sequenceNumber sub3 = 0"
proof -
  let ?sub = "sampleSubscription\<lparr>maxKeepAliveCount := 3\<rparr>"
  have h: "maxKeepAliveCount ?sub = 3" "currentKeepAliveCount ?sub = 0"
      "monitoredItems ?sub = []" "sequenceNumber ?sub = 0"
      "channel (sampleSession [sampleEnvelope 10]) = Some 0"
      "responseQueue (sampleSession [sampleEnvelope 10]) = sampleEnvelope 10 # []"
      "notificationData (notificationMessage (response (sampleEnvelope 10))) = []"
    by (simp_all add: sample_defs)
  from keepalive_scenario[OF h, of "\<lparr>maxRetransmissionQueueSize = 0\<rparr>" sampleEnv]
  obtain sub3 env3 where
    r: "tick \<lparr>maxRetransmissionQueueSize = 0\<rparr>
          (tick \<lparr>maxRetransmissionQueueSize = 0\<rparr>
             (tick \<lparr>maxRetransmissionQueueSize = 0\<rparr>
                (Some (Some ?sub, sampleSession [sampleEnvelope 10], sampleEnv))))
          = Some (Some sub3, (sampleSession [sampleEnvelope 10])\<lparr>responseQueue := []\<rparr>, env3)"
       "map responseSummary (sent env3)
          = map responseSummary (sent sampleEnv) @ [(requestId (sampleEnvelope 10), 1, False, [])]"
       "sequenceNumber sub3 = 0"
    by blast
  show ?thesis
    using r by (intro exI[of _ sub3] exI[of _ env3]) (simp add: sample_defs)
qed

theorem lifetime_expiry_scenario_witness:
  "tick \<lparr>maxRetransmissionQueueSize = 0\<rparr>
     (tick \<lparr>maxRetransmissionQueueSize = 0\<rparr>
        (tick \<lparr>maxRetransmissionQueueSize = 0\<rparr>
           (tick \<lparr>maxRetransmissionQueueSize = 0\<rparr>
              (Some (Some (sampleSubscription\<lparr>lifeTimeCount := 2,
                                               monitoredItems := [sampleItem [''A'']]\<rparr>),
                     sampleSession [], sampleEnv)))))
     = Some (None, (sampleSession [])\<lparr>serverSubscriptions := []\<rparr>, sampleEnv)"
proof -
  let ?sub = "sampleSubscription\<lparr>lifeTimeCount := 2, monitoredItems := [sampleItem [''A'']]\<rparr>"
  have h: "countQueuedNotifications ?sub False = (1, False)" "0 < (1::nat)"
      "channel (sampleSession []) = Some 0" "responseQueue (sampleSession []) = []"
      "state ?sub = UA_SUBSCRIPTIONSTATE_NORMAL" "lifeTimeCount ?sub = 2"
      "currentLifetimeCount ?sub = 0"
    by (simp_all add: sample_defs countQueuedNotifications_def)
  from lifetime_expiry_scenario[OF h, of "\<lparr>maxRetransmissionQueueSize = 0\<rparr>" sampleEnv,
         THEN conjunct2, THEN conjunct2, THEN conjunct2]
  show ?thesis
    by (simp add: sample_defs blocksEntries_def)
qed

theorem lifetime_expiry_tick3_counterexample:
  "tick \<lparr>maxRetransmissionQueueSize = 0\<rparr>
     (tick \<lparr>maxRetransmissionQueueSize = 0\<rparr>
        (tick \<lparr>maxRetransmissionQueueSize = 0\<rparr>
           (Some (Some (sampleSubscription\<lparr>lifeTimeCount := 2,
                                            monitoredItems := [sampleItem [''A'']]\<rparr>),
                  sampleSession [], sampleEnv))))
     = Some (Some (sampleSubscription\<lparr>lifeTimeCount := 2,
                                      monitoredItems := [sampleItem [''A'']],
                                      state := UA_SUBSCRIPTIONSTATE_LATE,
                                      currentLifetimeCount := 2\<rparr>),
             sampleSession [], sampleEnv)"
proof -
  let ?sub = "sampleSubscription\<lparr>lifeTimeCount := 2, monitoredItems := [sampleItem [''A'']]\<rparr>"
  have h: "countQueuedNotifications ?sub False = (1, False)" "0 < (1::nat)"
      "channel (sampleSession []) = Some 0" "responseQueue (sampleSession []) = []"
      "state ?sub = UA_SUBSCRIPTIONSTATE_NORMAL" "lifeTimeCount ?sub = 2"
      "currentLifetimeCount ?sub = 0"
    by (simp_all add: sample_defs countQueuedNotifications_def)
  from lifetime_ticks(3)[OF h, of "\<lparr>maxRetransmissionQueueSize = 0\<rparr>" sampleEnv]
  show ?thesis by simp
qed

theorem overflow_scenario_witness:
  "\<exists>sub1 env1.
     UA_Subscription_publishCallback \<lparr>maxRetransmissionQueueSize = 0\<rparr>
       (sampleSubscription\<lparr>monitoredItems :=
                             [sampleItem [''A'', ''B'', ''C'', ''D'', ''E'']]\<rparr>)
       (sampleSession [sampleEnvelope 10, sampleEnvelope 11]) sampleEnv
       = Some (Some sub1,
               (sampleSession [sampleEnvelope 10, sampleEnvelope 11])\<lparr>responseQueue := []\<rparr>,
               env1) \<and>
     map responseSummary (sent env1)
       = [(10, 1, True,
           [UA_EXTENSIONOBJECT_DECODED
              [\<lparr>clientHandle = 7, dataValue = ''A''\<rparr>, \<lparr>clientHandle = 7, dataValue = ''B''\<rparr>]]),
          (11, 2, True,
           [UA_EXTENSIONOBJECT_DECODED
              [\<lparr>clientHandle = 7, dataValue = ''C''\<rparr>, \<lparr>clientHandle = 7, dataValue = ''D''\<rparr>]])] \<and>
     map (map qv_value) (map queue (monitoredItems sub1)) = [[''E'']]"
proof -
  let ?sub = "sampleSubscription\<lparr>monitoredItems :=
                             [sampleItem [''A'', ''B'', ''C'', ''D'', ''E'']]\<rparr>"
  let ?qv = "\<lambda>v. \<lparr>qv_clientHandle = 7, qv_value = v\<rparr>"
  have h: "notificationsPerPublish ?sub = 2" "publishingEnabled ?sub"
      "monitoredItems ?sub = [sampleItem [''A'', ''B'', ''C'', ''D'', ''E'']]"
      "queue (sampleItem [''A'', ''B'', ''C'', ''D'', ''E''])
         = [?qv ''A'', ?qv ''B'', ?qv ''C'', ?qv ''D'', ?qv ''E'']"
      "sequenceNumber ?sub = 0" "retransmissionQueue ?sub = []"
      "retransmissionQueueSize ?sub = 0"
      "channel (sampleSession [sampleEnvelope 10, sampleEnvelope 11]) = Some 0"
      "allocOutcomes sampleEnv = []"
    by (simp_all add: sample_defs)
  have q: "responseQueue (sampleSession [sampleEnvelope 10, sampleEnvelope 11])
             = [sampleEnvelope 10, sampleEnvelope 11]"
    by (simp add: sample_defs)
  from overflow_scenario[OF h, of "sampleEnvelope 10" "\<lparr>maxRetransmissionQueueSize = 0\<rparr>"
         "sampleEnvelope 11", THEN conjunct2, THEN mp, OF q]
  obtain sub1 env1 where
    r: "UA_Subscription_publishCallback \<lparr>maxRetransmissionQueueSize = 0\<rparr> ?sub
          (sampleSession [sampleEnvelope 10, sampleEnvelope 11]) sampleEnv
          = Some (Some sub1,
               (sampleSession [sampleEnvelope 10, sampleEnvelope 11])\<lparr>responseQueue := []\<rparr>,
               env1) \<and>
       map responseSummary (sent env1)
          = map responseSummary (sent sampleEnv) @
            [(requestId (sampleEnvelope 10), 1, True,
              [UA_EXTENSIONOBJECT_DECODED [notificationOf (?qv ''A''), notificationOf (?qv ''B'')]]),
             (requestId (sampleEnvelope 11), 2, True,
              [UA_EXTENSIONOBJECT_DECODED [notificationOf (?qv ''C''), notificationOf (?qv ''D'')]])] \<and>
       map queue (monitoredItems sub1) = [[?qv ''E'']]"
    by (elim exE) (rule that)
  show ?thesis
    using r by (intro exI[of _ sub1] exI[of _ env1]) (simp add: sample_defs notificationOf_def)
qed

theorem sequence_numbers_consecutive_witness:
  "\<exists>r se env.
     engineRun \<lparr>maxRetransmissionQueueSize = 0\<rparr>
       (sampleSubscription\<lparr>monitoredItems := [sampleItem [''A'', ''B'', ''C'']]\<rparr>,
        sampleSession [sampleEnvelope 10, sampleEnvelope 11], sampleEnv) (r, se, env) \<and>
     envelopesInitialised (sampleSession [sampleEnvelope 10, sampleEnvelope 11]) \<and>
     length (dataBearing (sent env)) = 2 \<and>
     sentSequenceNumber (dataBearing (sent env) ! Suc 0)
       = sentSequenceNumber (dataBearing (sent env) ! 0) + 1 \<and>
     map_option sequenceNumber r = Some 2"
proof -
  let ?sub = "sampleSubscription\<lparr>monitoredItems := [sampleItem [''A'', ''B'', ''C'']]\<rparr>"
  let ?se = "sampleSession [sampleEnvelope 10, sampleEnvelope 11]"
  let ?sv = "\<lparr>maxRetransmissionQueueSize = 0\<rparr>"
  have "\<exists>sub1 se1 env1.
          UA_Subscription_publishCallback ?sv ?sub ?se sampleEnv = Some (Some sub1, se1, env1) \<and>
          length (dataBearing (sent env1)) = 2"
    apply (subst callback_unfold)
    apply (simp add: sample_defs engine_defs)
    apply (subst callback_unfold)
    apply (simp add: sample_defs engine_defs dataBearing_def isDataBearing_def)
    done
  then obtain sub1 se1 env1 where
    e: "UA_Subscription_publishCallback ?sv ?sub ?se sampleEnv = Some (Some sub1, se1, env1)"
       "length (dataBearing (sent env1)) = 2"
    by blast
  have run: "engineRun ?sv (?sub, ?se, sampleEnv) (Some sub1, se1, env1)"
    by (rule engineRun.tick[OF engineRun.started[OF refl] e(1)])
  have ini: "envelopesInitialised ?se"
    by (simp add: envelopesInitialised_def sample_defs)
  from sequence_numbers_consecutive[OF run ini] obtain new where
    n: "sent env1 = sent sampleEnv @ new"
       "\<forall>i. Suc i < length (dataBearing new) \<longrightarrow>
          sentSequenceNumber (dataBearing new ! Suc i)
            = sentSequenceNumber (dataBearing new ! i) + 1"
       "\<forall>sub. Some sub1 = Some sub \<longrightarrow>
          sequenceNumber sub
            = sequenceNumber ?sub + of_nat (length (dataBearing new))"
    by blast
  have new: "new = sent env1" using n(1) by (simp add: sample_defs)
  have a: "sentSequenceNumber (dataBearing (sent env1) ! Suc 0)
             = sentSequenceNumber (dataBearing (sent env1) ! 0) + 1"
    using n(2) e(2) new by simp
  have b: "sequenceNumber sub1 = 2"
    using n(3) e(2) new by (simp add: sample_defs)
  show ?thesis
    using run ini e(2) a b
    by (intro exI[of _ "Some sub1"] exI[of _ se1] exI[of _ env1]) simp
qed

end
